theory Spec2Isabelle
  imports Main "HOL-Library.Word"
begin

section \<open>The SQLite and SpatiaLite libraries as an opaque engine\<close>

text \<open>
  The program in \<^verbatim>\<open>src/main.cpp\<close> is glue around two C libraries. Every library
  function it calls is one constructor of \<open>call\<close>; a statement handle is named by the
  SQL text it was prepared from. The libraries themselves are a parameter: an engine
  maps a call and the engine's own state to a reply (a status code and a text: the
  error message, a version string or a column value) and a new state. Nothing is
  assumed about the engine, so a theorem that holds for every engine holds for the
  real libraries, whatever the database file and the shapefile contain.
\<close>

datatype call =
    sqlite3_libversion
  | spatialite_version
  | sqlite3_open_v2 string
  | sqlite3_errmsg
  | sqlite3_close
  | sqlite3_free
  | sqlite3_exec string
  | sqlite3_prepare_v2 string
  | sqlite3_step string
  | sqlite3_column_text string
  | sqlite3_finalize string
  | spatialite_alloc_connection
  | spatialite_init_ex
  | spatialite_cleanup_ex
  | spatialite_shutdown
  | setenv string string

type_synonym reply = "int \<times> string"

type_synonym 's engine = "call \<Rightarrow> 's \<Rightarrow> reply \<times> 's"

text \<open>The status codes of \<^verbatim>\<open>sqlite3.h\<close> that the program compares against.\<close>

definition SQLITE_OK :: int where
  "SQLITE_OK = 0"

definition SQLITE_ROW :: int where
  "SQLITE_ROW = 100"

text \<open>
  What a run leaves behind: the engine's state, the library calls made so far with the
  reply to each (oldest first), and the lines written to standard output and to standard
  error.
\<close>

record 's world =
  engine_state :: 's
  trace :: "(call \<times> reply) list"
  cout :: "string list"
  cerr :: "string list"

definition start :: "'s \<Rightarrow> 's world" where
  "start s = \<lparr>engine_state = s, trace = [], cout = [], cerr = []\<rparr>"

definition calls :: "'s world \<Rightarrow> call list" where
  "calls w = map fst (trace w)"

definition invoke :: "'s engine \<Rightarrow> call \<Rightarrow> 's world \<Rightarrow> reply \<times> 's world" where
  "invoke eng c w =
     (let (r, s') = eng c (engine_state w)
      in (r, w\<lparr>engine_state := s', trace := trace w @ [(c, r)]\<rparr>))"

definition invoke_void :: "'s engine \<Rightarrow> call \<Rightarrow> 's world \<Rightarrow> 's world" where
  "invoke_void eng c w = snd (invoke eng c w)"

definition print_out :: "string \<Rightarrow> 's world \<Rightarrow> 's world" where
  "print_out line w = w\<lparr>cout := cout w @ [line]\<rparr>"

definition print_err :: "string \<Rightarrow> 's world \<Rightarrow> 's world" where
  "print_err line w = w\<lparr>cerr := cerr w @ [line]\<rparr>"

text \<open>
  How a function of the program ends: it returns an exit code, or it throws
  \<^verbatim>\<open>std::runtime_error\<close> with a message.
\<close>

datatype exit = Return int | Throw string

section \<open>The program\<close>

subsection \<open>\<^verbatim>\<open>handle_error\<close> (main.cpp, lines 17 to 24)\<close>

definition handle_error :: "'s engine \<Rightarrow> string \<Rightarrow> 's world \<Rightarrow> 's world" where
  "handle_error eng err_msg w =
     (let w1 = print_err (''Error: '' @ err_msg) w;
          w2 = invoke_void eng sqlite3_free w1;
          w3 = invoke_void eng sqlite3_close w2;
          w4 = invoke_void eng spatialite_cleanup_ex w3
      in invoke_void eng spatialite_shutdown w4)"

subsection \<open>\<^verbatim>\<open>spatial_metadata_exists\<close> (lines 36 to 55)\<close>

definition check_sql :: string where
  "check_sql =
     ''SELECT name FROM sqlite_master WHERE type='table' AND name='spatial_ref_sys'' @ [CHR 0x27]"

text \<open>
  The result is \<open>Inl\<close> of the message when the function throws, \<open>Inr\<close> of the
  boolean when it returns.
\<close>

definition spatial_metadata_exists :: "'s engine \<Rightarrow> 's world \<Rightarrow> (string + bool) \<times> 's world" where
  "spatial_metadata_exists eng w =
     (let ((result, _), w1) = invoke eng (sqlite3_prepare_v2 check_sql) w
      in if result \<noteq> SQLITE_OK then
           (let ((_, msg), w2) = invoke eng sqlite3_errmsg w1;
                w3 = print_err (''Error checking if spatial_ref_sys table exists: '' @ msg) w2
            in (Inl ''Error checking if spatial_ref_sys table exists'', w3))
         else
           (let ((rc, _), w2) = invoke eng (sqlite3_step check_sql) w1;
                w3 = invoke_void eng (sqlite3_finalize check_sql) w2
            in (Inr (rc = SQLITE_ROW), w3)))"

subsection \<open>The blocks the two runners share\<close>

text \<open>
  Each runner is a sequence of blocks; a block either ends the function (\<open>Some\<close> of how)
  or falls through to the next block (\<open>None\<close>).

  Lines 85 to 100 (and 240 to 255): open the database; on failure print the engine's
  message, close the handle and return 1; on success allocate the per-connection cache
  and attach it.
\<close>

definition open_database :: "'s engine \<Rightarrow> string \<Rightarrow> 's world \<Rightarrow> exit option \<times> 's world" where
  "open_database eng db_name w =
     (let w1 = print_out (''Opening database: '' @ db_name) w;
          ((ret, _), w2) = invoke eng (sqlite3_open_v2 db_name) w1
      in if ret \<noteq> SQLITE_OK then
           (let ((_, msg), w3) = invoke eng sqlite3_errmsg w2;
                w4 = print_err (''Error opening database: '' @ msg) w3;
                w5 = invoke_void eng sqlite3_close w4
            in (Some (Return 1), w5))
         else
           (let w3 = invoke_void eng spatialite_alloc_connection w2;
                w4 = invoke_void eng spatialite_init_ex w3
            in (None, w4)))"

text \<open>
  The pattern of lines 108 to 114, 122 to 128, 146 to 152, 161 to 168, 192 to 198,
  263 to 269 and 277 to 283: run one SQL statement with \<^verbatim>\<open>sqlite3_exec\<close>; on a
  status other than \<^verbatim>\<open>SQLITE_OK\<close> print the label with the engine's message, call
  \<open>handle_error\<close> and return 1.
\<close>

definition exec_or_fail :: "'s engine \<Rightarrow> string \<Rightarrow> string \<Rightarrow> 's world \<Rightarrow> exit option \<times> 's world" where
  "exec_or_fail eng sql_cmd label w =
     (let ((ret, err_msg), w1) = invoke eng (sqlite3_exec sql_cmd) w
      in if ret \<noteq> SQLITE_OK then
           (let w2 = print_err (label @ err_msg) w1
            in (Some (Return 1), handle_error eng err_msg w2))
         else (None, w1))"

definition init_sql :: string where
  "init_sql = ''SELECT InitSpatialMetaData(1);''"

text \<open>
  Lines 102 to 115 (and 257 to 270): the metadata bootstrap. The exception of
  \<open>spatial_metadata_exists\<close> is caught nowhere, so it leaves the runner as it is.
\<close>

definition bootstrap :: "'s engine \<Rightarrow> 's world \<Rightarrow> exit option \<times> 's world" where
  "bootstrap eng w =
     (case spatial_metadata_exists eng w of
        (Inl what, w1) \<Rightarrow> (Some (Throw what), w1)
      | (Inr exists, w1) \<Rightarrow>
          if \<not> exists then
            exec_or_fail eng init_sql ''Error initializing Spatialite: ''
              (print_out ''Initializing Spatialite...'' w1)
          else (None, w1))"

text \<open>
  Lines 200 to 212 (and 321 to 333): close the handle, report a failure to close, release
  the cache, shut the extension down and return 0.
\<close>

definition finish :: "'s engine \<Rightarrow> string \<Rightarrow> 's world \<Rightarrow> exit \<times> 's world" where
  "finish eng done_line w =
     (let ((ret, _), w1) = invoke eng sqlite3_close w;
          w2 = (if ret \<noteq> SQLITE_OK then
                  (let ((_, msg), w') = invoke eng sqlite3_errmsg w1
                   in print_err (''Error closing database: '' @ msg) w')
                else w1);
          w3 = invoke_void eng spatialite_cleanup_ex w2;
          w4 = invoke_void eng spatialite_shutdown w3
      in (Return 0, print_out done_line w4))"

subsection \<open>\<^verbatim>\<open>run_example_1\<close> (lines 69 to 213)\<close>

definition places_1 :: "(string \<times> string) list" where
  "places_1 =
     [(''Rio de Janeiro'', ''POINT(-43.1729 -22.9068)''),
      (''Foz do Iguacu'', ''POINT(-54.5854 -25.5165)''),
      (''Fernando de Noronha'', ''POINT(-32.423786 -3.853808)'')]"

definition create_table_sql :: "string \<Rightarrow> string" where
  "create_table_sql table_name =
     ''CREATE TABLE IF NOT EXISTS '' @ table_name @
     '' (id INTEGER PRIMARY KEY AUTOINCREMENT NOT NULL)''"

definition add_geometry_sql :: "string \<Rightarrow> string" where
  "add_geometry_sql table_name =
     ''SELECT AddGeometryColumn('' @ [CHR 0x27] @ table_name @ ''', 'geom', 4326, 'POINT', 'XY')''"

definition begin_sql :: string where
  "begin_sql = ''BEGIN TRANSACTION;''"

definition insert_sql :: "string \<Rightarrow> string \<Rightarrow> string" where
  "insert_sql table_name wkt =
     ''INSERT INTO '' @ table_name @ '' (geom) VALUES (GeomFromText('' @ [CHR 0x27] @ wkt @ ''', 4326))''"

definition commit_sql :: string where
  "commit_sql = ''COMMIT''"

text \<open>The loop of lines 176 to 186.\<close>

fun insert_places ::
  "'s engine \<Rightarrow> string \<Rightarrow> (string \<times> string) list \<Rightarrow> 's world \<Rightarrow> exit option \<times> 's world" where
  "insert_places eng table_name [] w = (None, w)"
| "insert_places eng table_name (place # rest) w =
     (case invoke eng (sqlite3_exec (insert_sql table_name (snd place)))
             (print_out (''Adding '' @ fst place @ '': '' @ snd place) w) of
        ((ret, err_msg), w1) \<Rightarrow>
          if ret \<noteq> SQLITE_OK then
            (Some (Return 1),
             handle_error eng err_msg
               (print_err (''Error adding '' @ fst place @ '': '' @ err_msg) w1))
          else insert_places eng table_name rest w1)"

text \<open>Lines 78 to 80.\<close>

definition show_versions :: "'s engine \<Rightarrow> 's world \<Rightarrow> 's world" where
  "show_versions eng w =
     (let ((_, v1), w1) = invoke eng sqlite3_libversion w;
          w2 = print_out (''SQLite version: '' @ v1) w1;
          ((_, v2), w3) = invoke eng spatialite_version w2
      in print_out (''Spatialite version: '' @ v2) w3)"

definition run_example_1 :: "'s engine \<Rightarrow> string \<Rightarrow> 's world \<Rightarrow> exit \<times> 's world" where
  "run_example_1 eng db_name w =
     (let table_name = ''points''
      in case open_database eng db_name (show_versions eng w) of
           (Some e, w5) \<Rightarrow> (e, w5)
         | (None, w5) \<Rightarrow>
       (case bootstrap eng w5 of
           (Some e, w6) \<Rightarrow> (e, w6)
         | (None, w6) \<Rightarrow>
       (case exec_or_fail eng (create_table_sql table_name) ''Error creating table: ''
               (print_out (''Creating table: '' @ table_name) w6) of
           (Some e, w7) \<Rightarrow> (e, w7)
         | (None, w7) \<Rightarrow>
       (case exec_or_fail eng (add_geometry_sql table_name) ''Error adding geometry column: ''
               (print_out (''Adding geometry column to table: '' @ table_name) w7) of
           (Some e, w8) \<Rightarrow> (e, w8)
         | (None, w8) \<Rightarrow>
       (case exec_or_fail eng begin_sql ''Error starting transaction: ''
               (print_out ''Adding some tourist places in Brazil...'' w8) of
           (Some e, w9) \<Rightarrow> (e, w9)
         | (None, w9) \<Rightarrow>
       (case insert_places eng table_name places_1 w9 of
           (Some e, w10) \<Rightarrow> (e, w10)
         | (None, w10) \<Rightarrow>
       (case exec_or_fail eng commit_sql ''Error committing transaction: ''
               (print_out ''Committing transaction...'' w10) of
           (Some e, w11) \<Rightarrow> (e, w11)
         | (None, w11) \<Rightarrow> finish eng ''Example 1 Done.'' w11)))))))"

subsection \<open>\<^verbatim>\<open>run_example_2\<close> (lines 223 to 334)\<close>

definition places_2 :: "(string \<times> string) list" where
  "places_2 =
     [(''Rio de Janeiro'', ''POINT(-43.1729 -22.9068)''),
      (''Foz do Iguacu'', ''POINT(-54.5854 -25.5165)''),
      (''Fernando de Noronha'', ''POINT(-32.423786 -3.853808)''),
      (''Null Island'', ''POINT(0 0)''),
      (''New York'', ''POINT(-74.0060 40.7128)'')]"

definition import_sql :: "string \<Rightarrow> string \<Rightarrow> string" where
  "import_sql shp_file_path table_name =
     ''SELECT ImportSHP('' @ [CHR 0x27] @ shp_file_path @ ''', '' @ [CHR 0x27] @ table_name @
     ''', 'UTF-8')''"

definition within_sql :: "string \<Rightarrow> string \<Rightarrow> string" where
  "within_sql table_name wkt =
     ''SELECT NM_UF FROM '' @ table_name @ '' WHERE ST_Within(GeomFromText('' @ [CHR 0x27] @ wkt @
     ''', 4326), geometry) =1''"

text \<open>
  One round of the loop of lines 296 to 319, after a successful prepare: step the
  statement once, print the first column of a row or "Not found", finalize.
\<close>

definition report_place :: "'s engine \<Rightarrow> string \<Rightarrow> string \<Rightarrow> 's world \<Rightarrow> 's world" where
  "report_place eng name sql_cmd w =
     (let ((ret, _), w1) = invoke eng (sqlite3_step sql_cmd) w;
          w2 = (if ret = SQLITE_ROW then
                  (let ((_, txt), w') = invoke eng (sqlite3_column_text sql_cmd) w1
                   in print_out (name @ '' ---> '' @ txt) w')
                else print_out (name @ '' ---> '' @ ''Not found'') w1)
      in invoke_void eng (sqlite3_finalize sql_cmd) w2)"

fun query_places ::
  "'s engine \<Rightarrow> string \<Rightarrow> (string \<times> string) list \<Rightarrow> 's world \<Rightarrow> exit option \<times> 's world" where
  "query_places eng table_name [] w = (None, w)"
| "query_places eng table_name (place # rest) w =
     (case invoke eng (sqlite3_prepare_v2 (within_sql table_name (snd place))) w of
        ((ret, _), w1) \<Rightarrow>
          if ret \<noteq> SQLITE_OK then
            (case invoke eng sqlite3_errmsg w1 of
               ((_, msg), w2) \<Rightarrow>
                 (Some (Return 1),
                  invoke_void eng spatialite_shutdown
                    (invoke_void eng spatialite_cleanup_ex
                       (invoke_void eng sqlite3_close
                          (print_err (''Error preparing statement: '' @ msg) w2)))))
          else
            query_places eng table_name rest
              (report_place eng (fst place) (within_sql table_name (snd place)) w1))"

definition run_example_2 :: "'s engine \<Rightarrow> string \<Rightarrow> 's world \<Rightarrow> exit \<times> 's world" where
  "run_example_2 eng db_name w =
     (let table_name = ''location'';
          shp_file_path = ''../shp/BR_UF_2022'';
          w1 = invoke_void eng (setenv ''SPATIALITE_SECURITY'' ''relaxed'') w
      in case open_database eng db_name w1 of
           (Some e, w2) \<Rightarrow> (e, w2)
         | (None, w2) \<Rightarrow>
       (case bootstrap eng w2 of
           (Some e, w3) \<Rightarrow> (e, w3)
         | (None, w3) \<Rightarrow>
       (case exec_or_fail eng (import_sql shp_file_path table_name)
               ''Error importing shapefile: ''
               (print_out (import_sql shp_file_path table_name)
                  (print_out (''Importing shapefile: '' @ shp_file_path) w3)) of
           (Some e, w4) \<Rightarrow> (e, w4)
         | (None, w4) \<Rightarrow>
       (case query_places eng table_name places_2
               (print_out
                  ''Checking what are the correspoding State names for the following points:''
                  w4) of
           (Some e, w5) \<Rightarrow> (e, w5)
         | (None, w5) \<Rightarrow> finish eng ''Example 2 Done.'' w5))))"

subsection \<open>\<^verbatim>\<open>show_usage\<close> and \<^verbatim>\<open>main\<close> (lines 342 to 433)\<close>

definition show_usage :: "'s world \<Rightarrow> 's world" where
  "show_usage w =
     print_out ''  -n, --db-name <name>    Name of the database file (if not provided, in-memory)''
       (print_out ''  -i, --example-id <id>   ID of the example to run''
          (print_out ''  -h, --help              Show this help message''
             (print_out ''Options:''
                (print_out ''Usage: sqlite3_spatialite_app [options]'' w))))"

text \<open>
  \<^verbatim>\<open>atoi\<close> of the C library: leading white space is skipped, a sign is optional, and
  the decimal digits that follow are the value; anything else ends the number, and no
  digits at all give 0. The C standard leaves the result undefined when the value does
  not fit an \<^verbatim>\<open>int\<close>. The model does what the GNU C library does where \<^verbatim>\<open>long\<close> has
  64 bits and \<^verbatim>\<open>int\<close> 32: \<^verbatim>\<open>atoi\<close> is \<^verbatim>\<open>(int) strtol (nptr, NULL, 10)\<close>, where
  \<^verbatim>\<open>strtol\<close> reads all the digits and returns \<^verbatim>\<open>LONG_MAX\<close> or \<^verbatim>\<open>LONG_MIN\<close> when the
  value is out of range, and the conversion to \<^verbatim>\<open>int\<close> keeps the low 32 bits.
\<close>

definition isspace :: "char \<Rightarrow> bool" where
  "isspace c = (c \<in> set [CHR '' '', CHR 0x09, CHR 0x0A, CHR 0x0B, CHR 0x0C, CHR 0x0D])"

definition isdigit :: "char \<Rightarrow> bool" where
  "isdigit c = (c \<in> set ''0123456789'')"

fun digits_value :: "int \<Rightarrow> string \<Rightarrow> int" where
  "digits_value acc [] = acc"
| "digits_value acc (c # cs) =
     (if isdigit c then digits_value (acc * 10 + (of_char c - 48)) cs else acc)"

definition LONG_MAX :: int where
  "LONG_MAX = 2 ^ 63 - 1"

definition LONG_MIN :: int where
  "LONG_MIN = - (2 ^ 63)"

definition strtol :: "string \<Rightarrow> int" where
  "strtol s =
     (case dropWhile isspace s of
        [] \<Rightarrow> 0
      | c # cs \<Rightarrow>
          if c = CHR ''-'' then max LONG_MIN (- digits_value 0 cs)
          else if c = CHR ''+'' then min LONG_MAX (digits_value 0 cs)
          else min LONG_MAX (digits_value 0 (c # cs)))"

definition atoi :: "string \<Rightarrow> int" where
  "atoi s = (strtol s + 2 ^ 31) mod 2 ^ 32 - 2 ^ 31"

text \<open>
  The variables the lambda \<^verbatim>\<open>parse_args\<close> captures by reference; \<^verbatim>\<open>example_id\<close>
  is a \<^verbatim>\<open>uint8_t\<close>.
\<close>

record args =
  in_memory_db :: bool
  db_name :: string
  example_id :: "8 word"

definition initial_args :: args where
  "initial_args = \<lparr>in_memory_db = True, db_name = [], example_id = 0\<rparr>"

text \<open>
  \<^verbatim>\<open>getopt_long\<close> belongs to the C library too. A command line reaches the program as
  what \<^verbatim>\<open>getopt_long\<close> makes of it: the results of its successive calls until it returns
  -1, and the arguments left from \<^verbatim>\<open>optind\<close> on. A call either returns the character of
  an option it has found, with its \<^verbatim>\<open>optarg\<close>, or it rejects what it has found (an option
  that is not in its table, an ambiguous abbreviation, a missing or an unexpected
  argument). In the second case it returns \<^verbatim>\<open>'?'\<close>, and before that it writes a line of its
  own to standard error: the program leaves \<^verbatim>\<open>opterr\<close> at its initial value 1, and its
  option string \<^verbatim>\<open>"i:n:h"\<close> does not begin with a colon.
\<close>

datatype getopt = Returned char string | Diagnosed string

fun getopt_long :: "getopt \<Rightarrow> 's world \<Rightarrow> (char \<times> string) \<times> 's world" where
  "getopt_long (Returned c optarg) w = ((c, optarg), w)"
| "getopt_long (Diagnosed message) w = ((CHR ''?'', []), print_err message w)"

text \<open>
  The loop of lines 390 to 407: \<open>Inl\<close> is the code of \<^verbatim>\<open>std::exit\<close>.
\<close>

fun parse_options :: "getopt list \<Rightarrow> args \<Rightarrow> 's world \<Rightarrow> (int + args) \<times> 's world" where
  "parse_options [] a w = (Inr a, w)"
| "parse_options (g # later) a w =
     (case getopt_long g w of
        ((c, optarg), w1) \<Rightarrow>
          if c = CHR ''i'' then
            parse_options later (a\<lparr>example_id := word_of_int (atoi optarg)\<rparr>) w1
          else if c = CHR ''n'' then
            parse_options later (a\<lparr>db_name := optarg, in_memory_db := False\<rparr>) w1
          else if c = CHR ''h'' \<or> c = CHR ''?'' then (Inl 0, show_usage w1)
          else parse_options later a w1)"

definition parse_args ::
  "getopt list \<Rightarrow> string list \<Rightarrow> args \<Rightarrow> 's world \<Rightarrow> (int + args) \<times> 's world" where
  "parse_args options positional a w =
     (case parse_options options a (print_out ''parsing arguments...'' w) of
        (Inl code, w1) \<Rightarrow> (Inl code, w1)
      | (Inr a1, w1) \<Rightarrow>
          (case positional of
             [] \<Rightarrow> (Inr a1, w1)
           | p # _ \<Rightarrow> (Inl 1, print_err (''Unexpected argument: '' @ p) w1)))"

text \<open>
  How the process ends: with an exit code, or in \<^verbatim>\<open>std::terminate\<close> when an exception
  leaves \<^verbatim>\<open>main\<close> (the process is then aborted by a signal and has no exit code of
  its own).
\<close>

datatype outcome = Exit int | Terminate string

definition to_outcome :: "exit \<Rightarrow> outcome" where
  "to_outcome e = (case e of Return code \<Rightarrow> Exit code | Throw what \<Rightarrow> Terminate what)"

definition main :: "'s engine \<Rightarrow> getopt list \<Rightarrow> string list \<Rightarrow> 's \<Rightarrow> outcome \<times> 's world" where
  "main eng options positional s =
     (case parse_args options positional initial_args (start s) of
        (Inl code, w) \<Rightarrow> (Exit code, w)
      | (Inr a, w) \<Rightarrow>
          (let (name, w1) =
                 (if in_memory_db a then ('':memory:'', print_out ''Using in-memory database'' w)
                  else (db_name a, w))
           in if example_id a = 1 then
                (case run_example_1 eng name (print_out ''Running example 1...'' w1) of
                   (e, w2) \<Rightarrow> (to_outcome e, w2))
              else if example_id a = 2 then
                (case run_example_2 eng name (print_out ''Running example 2...'' w1) of
                   (e, w2) \<Rightarrow> (to_outcome e, w2))
              else
                (Exit 1,
                 print_err (''Unknown example ID: '' @ [char_of (unat (example_id a))]) w1)))"

section \<open>Notions used to state and prove the properties\<close>

text \<open>
  The reply the engine gives to a call in a world, and the SQL statements a run has passed to
  \<^verbatim>\<open>sqlite3_exec\<close>, oldest first.
\<close>

definition reply_of :: "'s engine \<Rightarrow> call \<Rightarrow> 's world \<Rightarrow> reply" where
  "reply_of eng c w = fst (eng c (engine_state w))"

fun exec_sql :: "call \<Rightarrow> string list" where
  "exec_sql (sqlite3_exec sql) = [sql]"
| "exec_sql _ = []"

definition executed :: "'s world \<Rightarrow> string list" where
  "executed w = concat (map exec_sql (calls w))"

fun is_setenv :: "call \<Rightarrow> bool" where
  "is_setenv (setenv name val) = True"
| "is_setenv _ = False"

text \<open>
  The table \<open>points\<close> belongs to the engine. What the program contributes to it is read
  off the statements: a statement \<^verbatim>\<open>INSERT INTO points (geom) VALUES (v)\<close> that the
  engine answers with \<^verbatim>\<open>SQLITE_OK\<close> adds one row, whose column \<open>geom\<close> is given by
  the expression \<open>v\<close>; no other call adds a row. An engine keeps the table, seen through
  a projection \<open>rows\<close> of its state, when each call changes the rows in this way and in
  no other; \<open>follows\<close> says that the rows of a world are those of the initial state
  followed by what the calls made so far have added.
\<close>

fun strip_prefix :: "string \<Rightarrow> string \<Rightarrow> string option" where
  "strip_prefix [] s = Some s"
| "strip_prefix (p # ps) [] = None"
| "strip_prefix (p # ps) (c # cs) = (if p = c then strip_prefix ps cs else None)"

definition inserted_row :: "string \<Rightarrow> string list" where
  "inserted_row sql =
     (case strip_prefix ''INSERT INTO points (geom) VALUES ('' sql of
        Some v \<Rightarrow> [butlast v]
      | None \<Rightarrow> [])"

definition added_rows :: "call \<Rightarrow> reply \<Rightarrow> string list" where
  "added_rows c r = (if fst r = SQLITE_OK then concat (map inserted_row (exec_sql c)) else [])"

definition keeps_table :: "('s \<Rightarrow> string list) \<Rightarrow> 's engine \<Rightarrow> bool" where
  "keeps_table rows eng \<longleftrightarrow>
     (\<forall>c s. rows (snd (eng c s)) = rows s @ added_rows c (fst (eng c s)))"

definition follows :: "('s \<Rightarrow> string list) \<Rightarrow> 's \<Rightarrow> 's world \<Rightarrow> bool" where
  "follows rows s w \<longleftrightarrow>
     rows (engine_state w) = rows s @ concat (map (\<lambda>(c, r). added_rows c r) (trace w))"

text \<open>
  One successful insert of the loop of example 1, and the line the loop prints before it.
\<close>

definition inserted :: "string \<Rightarrow> string \<times> string \<Rightarrow> string \<Rightarrow> call \<times> reply" where
  "inserted t p m = (sqlite3_exec (insert_sql t (snd p)), (SQLITE_OK, m))"

definition adding :: "string \<times> string \<Rightarrow> string" where
  "adding p = ''Adding '' @ fst p @ '': '' @ snd p"

text \<open>
  One completed round of the query loop of example 2: the replies of the engine to the
  prepare, the step, the column read (made only after a row) and the finalize; the calls
  the round adds to the trace and the line it prints. A round that fails to prepare adds the
  calls of \<open>aborted\<close> instead.
\<close>

record answers =
  prepared :: string
  stepped :: reply
  column :: reply
  finalized :: reply

definition round_trace :: "string \<Rightarrow> string \<times> string \<Rightarrow> answers \<Rightarrow> (call \<times> reply) list" where
  "round_trace t p a =
     [(sqlite3_prepare_v2 (within_sql t (snd p)), (SQLITE_OK, prepared a)),
      (sqlite3_step (within_sql t (snd p)), stepped a)] @
     (if fst (stepped a) = SQLITE_ROW
      then [(sqlite3_column_text (within_sql t (snd p)), column a)] else []) @
     [(sqlite3_finalize (within_sql t (snd p)), finalized a)]"

definition round_line :: "string \<times> string \<Rightarrow> answers \<Rightarrow> string" where
  "round_line p a =
     fst p @ '' ---> '' @ (if fst (stepped a) = SQLITE_ROW then snd (column a) else ''Not found'')"

definition aborted ::
  "string \<Rightarrow> string \<Rightarrow> int \<Rightarrow> string \<Rightarrow> int \<Rightarrow> string \<Rightarrow> reply \<Rightarrow> reply \<Rightarrow> reply \<Rightarrow>
     (call \<times> reply) list" where
  "aborted t wkt rc m c msg r1 r2 r3 =
     [(sqlite3_prepare_v2 (within_sql t wkt), (rc, m)), (sqlite3_errmsg, (c, msg)),
      (sqlite3_close, r1), (spatialite_cleanup_ex, r2), (spatialite_shutdown, r3)]"

text \<open>
  Five concrete engines, used to run the program on explicit inputs. \<open>initialized\<close> is a
  database whose metadata tables exist and where every call succeeds and every query has a
  row. \<open>brazil\<close> answers the containment queries as a map of Brazil does: a row for every
  point but Null Island and New York. \<open>second_insert_fails\<close> is a fresh database (the check
  finds no table) that rejects the sixth statement it executes, which is the second insert
  of example 1. \<open>not_a_database\<close> is a file that is not an SQLite database: it opens, and
  every prepare fails with \<^verbatim>\<open>SQLITE_NOTADB\<close> (26). \<open>keeps_rows\<close> is a database whose
  metadata tables exist and whose state is the list of the rows of table \<open>points\<close>: every
  statement succeeds, and an insert adds its row.
\<close>

definition initialized :: "unit engine" where
  "initialized c s =
     (case c of
        sqlite3_step q \<Rightarrow> ((SQLITE_ROW, []), s)
      | sqlite3_column_text q \<Rightarrow> ((0, ''Rio de Janeiro''), s)
      | _ \<Rightarrow> ((SQLITE_OK, []), s))"

definition brazil :: "unit engine" where
  "brazil c s =
     (case c of
        sqlite3_step q \<Rightarrow>
          ((if q = within_sql ''location'' ''POINT(0 0)'' \<or>
               q = within_sql ''location'' ''POINT(-74.0060 40.7128)''
            then 101 else SQLITE_ROW, []), s)
      | sqlite3_column_text q \<Rightarrow> ((0, ''BR''), s)
      | _ \<Rightarrow> ((SQLITE_OK, []), s))"

definition second_insert_fails :: "nat engine" where
  "second_insert_fails c n =
     (case c of
        sqlite3_exec sql \<Rightarrow> (if n = 5 then (19, ''constraint failed'') else (SQLITE_OK, []), n + 1)
      | sqlite3_step q \<Rightarrow> ((101, []), n)
      | _ \<Rightarrow> ((SQLITE_OK, []), n))"

definition keeps_rows :: "string list engine" where
  "keeps_rows c rows =
     (case c of
        sqlite3_exec sql \<Rightarrow> ((SQLITE_OK, []), rows @ inserted_row sql)
      | sqlite3_step q \<Rightarrow> ((SQLITE_ROW, []), rows)
      | _ \<Rightarrow> ((SQLITE_OK, []), rows))"

definition not_a_database :: "unit engine" where
  "not_a_database c s =
     (case c of
        sqlite3_prepare_v2 q \<Rightarrow> ((26, []), s)
      | sqlite3_errmsg \<Rightarrow> ((0, ''file is not a database''), s)
      | _ \<Rightarrow> ((SQLITE_OK, []), s))"

section \<open>The SQL texts are pairwise different\<close>

lemma sql_distinct [simp]:
  "init_sql \<noteq> create_table_sql t" "init_sql \<noteq> add_geometry_sql t" "init_sql \<noteq> begin_sql"
  "init_sql \<noteq> commit_sql" "init_sql \<noteq> insert_sql t p" "init_sql \<noteq> import_sql f t"
  "commit_sql \<noteq> create_table_sql t" "commit_sql \<noteq> add_geometry_sql t" "commit_sql \<noteq> begin_sql"
  "commit_sql \<noteq> insert_sql t p" 
  "insert_sql t p \<noteq> create_table_sql t'" "insert_sql t p \<noteq> add_geometry_sql t'"
  "insert_sql t p \<noteq> begin_sql"
  "within_sql t p \<noteq> check_sql"
  by (simp_all add: init_sql_def create_table_sql_def add_geometry_sql_def begin_sql_def
      commit_sql_def insert_sql_def import_sql_def within_sql_def check_sql_def)

lemmas sql_distinct_sym [simp] = sql_distinct [symmetric]

lemma insert_sql_inject [simp]: "insert_sql t a = insert_sql t b \<longleftrightarrow> a = b"
  by (simp add: insert_sql_def)

lemma within_sql_inject [simp]: "within_sql t a = within_sql t b \<longleftrightarrow> a = b"
  by (simp add: within_sql_def)

lemma rollback_distinct [simp]:
  "''ROLLBACK'' \<noteq> init_sql" "''ROLLBACK'' \<noteq> create_table_sql t"
  "''ROLLBACK'' \<noteq> add_geometry_sql t" "''ROLLBACK'' \<noteq> begin_sql"
  "''ROLLBACK'' \<noteq> insert_sql t p"
  by (simp_all add: init_sql_def create_table_sql_def add_geometry_sql_def begin_sql_def
      insert_sql_def)

section \<open>What each block adds to a run\<close>

lemma print_world [simp]:
  "trace (print_out l w) = trace w" "cout (print_out l w) = cout w @ [l]"
  "cerr (print_out l w) = cerr w" 
  "trace (print_err l w) = trace w" "cout (print_err l w) = cout w"
  "cerr (print_err l w) = cerr w @ [l]" 
  by (simp_all add: print_out_def print_err_def)

lemma invoke_world [simp]:
  "fst (invoke eng c w) = reply_of eng c w"
  "trace (snd (invoke eng c w)) = trace w @ [(c, reply_of eng c w)]"
  "cout (snd (invoke eng c w)) = cout w"
  "cerr (snd (invoke eng c w)) = cerr w"
  by (simp_all add: invoke_def reply_of_def split_def Let_def)

lemma invoke_void_world [simp]:
  "trace (invoke_void eng c w) = trace w @ [(c, reply_of eng c w)]"
  "cout (invoke_void eng c w) = cout w"
  "cerr (invoke_void eng c w) = cerr w"
  by (simp_all add: invoke_void_def)

lemma show_versions_world:
  "\<exists>c1 v1 c2 v2. trace (show_versions eng w) = trace w @ [(sqlite3_libversion, (c1, v1)), (spatialite_version, (c2, v2))] \<and>
     cout (show_versions eng w) = cout w @ [''SQLite version: '' @ v1, ''Spatialite version: '' @ v2] \<and>
     cerr (show_versions eng w) = cerr w"
proof -
  let ?r1 = "reply_of eng sqlite3_libversion w"
  let ?w2 = "print_out (''SQLite version: '' @ snd ?r1) (snd (invoke eng sqlite3_libversion w))"
  let ?r2 = "reply_of eng spatialite_version ?w2"
  have "?r1 = (fst ?r1, snd ?r1)" "?r2 = (fst ?r2, snd ?r2)"
    by simp_all
  then show ?thesis
    by - (rule exI [of _ "fst ?r1"], rule exI [of _ "snd ?r1"], rule exI [of _ "fst ?r2"], rule exI [of _ "snd ?r2"],
        simp add: show_versions_def Let_def split_def)
qed

lemma open_database_None:
  assumes "open_database eng name w = (None, w')"
  shows "\<exists>m r1 r2. trace w' = trace w @
           [(sqlite3_open_v2 name, (SQLITE_OK, m)), (spatialite_alloc_connection, r1),
            (spatialite_init_ex, r2)]"
  using assms
  by (auto simp: open_database_def Let_def split_def prod_eq_iff split: if_splits)

lemma open_database_Some:
  assumes "open_database eng name w = (Some e, w')"
  shows "\<exists>rc m c msg r. e = Return 1 \<and> rc \<noteq> SQLITE_OK \<and> trace w' = trace w @
           [(sqlite3_open_v2 name, (rc, m)), (sqlite3_errmsg, (c, msg)), (sqlite3_close, r)]"
  using assms
  by (auto simp: open_database_def Let_def split_def prod_eq_iff split: if_splits)

lemma exec_or_fail_None:
  assumes "exec_or_fail eng sql label w = (None, w')"
  shows "\<exists>m. trace w' = trace w @ [(sqlite3_exec sql, (SQLITE_OK, m))]"
  using assms
  by (auto simp: exec_or_fail_def Let_def split_def prod_eq_iff split: if_splits)

lemma exec_or_fail_Some:
  assumes "exec_or_fail eng sql label w = (Some e, w')"
  shows "\<exists>rc m r1 r2 r3 r4. e = Return 1 \<and> rc \<noteq> SQLITE_OK \<and> trace w' = trace w @
           [(sqlite3_exec sql, (rc, m)), (sqlite3_free, r1), (sqlite3_close, r2),
            (spatialite_cleanup_ex, r3), (spatialite_shutdown, r4)]"
  using assms
  by (auto simp: exec_or_fail_def Let_def split_def prod_eq_iff handle_error_def split: if_splits)

lemma spatial_metadata_exists_Inl:
  assumes "spatial_metadata_exists eng w = (Inl what, w')"
  shows "\<exists>rc m c msg. what = ''Error checking if spatial_ref_sys table exists'' \<and>
           rc \<noteq> SQLITE_OK \<and> trace w' = trace w @
             [(sqlite3_prepare_v2 check_sql, (rc, m)), (sqlite3_errmsg, (c, msg))]"
  using assms
  by (auto simp: spatial_metadata_exists_def Let_def split_def prod_eq_iff split: if_splits)

lemma spatial_metadata_exists_Inr:
  assumes "spatial_metadata_exists eng w = (Inr b, w')"
  shows "\<exists>m rc x r. b = (rc = SQLITE_ROW) \<and> trace w' = trace w @
           [(sqlite3_prepare_v2 check_sql, (SQLITE_OK, m)), (sqlite3_step check_sql, (rc, x)),
            (sqlite3_finalize check_sql, r)]"
  using assms
  by (auto simp: spatial_metadata_exists_def Let_def split_def prod_eq_iff split: if_splits)

lemma bootstrap_None:
  assumes "bootstrap eng w = (None, w')"
  shows "\<exists>m rc x r ini. trace w' = trace w @
           [(sqlite3_prepare_v2 check_sql, (SQLITE_OK, m)), (sqlite3_step check_sql, (rc, x)),
            (sqlite3_finalize check_sql, r)] @ ini \<and>
           (rc = SQLITE_ROW \<and> ini = [] \<or>
            rc \<noteq> SQLITE_ROW \<and> (\<exists>k. ini = [(sqlite3_exec init_sql, (SQLITE_OK, k))]))"
  using assms
  by (auto simp: bootstrap_def split: prod.splits sum.splits if_splits
      dest!: spatial_metadata_exists_Inr exec_or_fail_None)

lemma bootstrap_Some:
  assumes "bootstrap eng w = (Some e, w')"
  shows "(\<exists>rc m c msg. e = Throw ''Error checking if spatial_ref_sys table exists'' \<and>
             rc \<noteq> SQLITE_OK \<and> trace w' = trace w @
               [(sqlite3_prepare_v2 check_sql, (rc, m)), (sqlite3_errmsg, (c, msg))]) \<or>
         (\<exists>m rc x r rc' k r1 r2 r3 r4. e = Return 1 \<and> rc \<noteq> SQLITE_ROW \<and> rc' \<noteq> SQLITE_OK \<and>
             trace w' = trace w @
               [(sqlite3_prepare_v2 check_sql, (SQLITE_OK, m)), (sqlite3_step check_sql, (rc, x)),
                (sqlite3_finalize check_sql, r), (sqlite3_exec init_sql, (rc', k)),
                (sqlite3_free, r1), (sqlite3_close, r2), (spatialite_cleanup_ex, r3),
                (spatialite_shutdown, r4)])"
  using assms
  by (auto simp: bootstrap_def split: prod.splits sum.splits if_splits
      dest!: spatial_metadata_exists_Inr spatial_metadata_exists_Inl exec_or_fail_Some)

lemma finish_world:
  assumes "finish eng line w = (e, w')"
  shows "\<exists>rc m r1 r2 err. e = Return 0 \<and> cout w' = cout w @ [line] \<and>
          trace w' = trace w @
            (sqlite3_close, (rc, m)) # err @ [(spatialite_cleanup_ex, r1), (spatialite_shutdown, r2)] \<and>
          (rc = SQLITE_OK \<and> err = [] \<or>
           rc \<noteq> SQLITE_OK \<and> (\<exists>c msg. err = [(sqlite3_errmsg, (c, msg))]))"
  using assms
  by (auto simp: finish_def Let_def split_def prod_eq_iff split: if_splits)

lemma finish_cout: "finish eng line w = (e, w') \<Longrightarrow> cout w' = cout w @ [line]"
  by (auto simp: finish_def Let_def split_def prod_eq_iff split: if_splits)

lemma exec_or_fail_cout:
  "exec_or_fail eng sql label w = (None, w') \<Longrightarrow> cout w' = cout w"
  by (auto simp: exec_or_fail_def Let_def split_def prod_eq_iff split: if_splits)

subsection \<open>The insert loop\<close>

lemma insert_places_None:
  assumes "insert_places eng t ps w = (None, w')"
  shows "\<exists>ms. length ms = length ps \<and> trace w' = trace w @ map2 (inserted t) ps ms"
  using assms
proof (induction ps arbitrary: w)
  case Nil
  then show ?case by simp
next
  case (Cons p ps)
  let ?w1 = "snd (invoke eng (sqlite3_exec (insert_sql t (snd p))) (print_out (adding p) w))"
  let ?r = "reply_of eng (sqlite3_exec (insert_sql t (snd p))) (print_out (adding p) w)"
  from Cons.prems have ok: "fst ?r = SQLITE_OK" and rest: "insert_places eng t ps ?w1 = (None, w')"
    by (auto simp: adding_def split_def split: if_splits)
  from Cons.IH [OF rest] obtain ms where ms: "length ms = length ps"
    "trace w' = trace ?w1 @ map2 (inserted t) ps ms"
    by blast
  have "?r = (SQLITE_OK, snd ?r)"
    using ok by (simp add: prod_eq_iff)
  then have "trace ?w1 = trace w @ [inserted t p (snd ?r)]"
    by (simp add: inserted_def)
  with ms show ?case
    by - (rule exI [of _ "snd ?r # ms"],
        simp)
qed

lemma insert_places_Some:
  assumes "insert_places eng t ps w = (Some e, w')"
  shows "\<exists>pre p rest ms rc m r1 r2 r3 r4. e = Return 1 \<and> ps = pre @ p # rest \<and>
           length ms = length pre \<and> rc \<noteq> SQLITE_OK \<and>
           trace w' = trace w @ map2 (inserted t) pre ms @
             [(sqlite3_exec (insert_sql t (snd p)), (rc, m)), (sqlite3_free, r1),
              (sqlite3_close, r2), (spatialite_cleanup_ex, r3), (spatialite_shutdown, r4)]"
  using assms
proof (induction ps arbitrary: w)
  case Nil
  then show ?case by simp
next
  case (Cons p ps)
  let ?w0 = "print_out (adding p) w"
  let ?c = "sqlite3_exec (insert_sql t (snd p))"
  let ?w1 = "snd (invoke eng ?c ?w0)"
  let ?r = "reply_of eng ?c ?w0"
  show ?case
  proof (cases "fst ?r = SQLITE_OK")
    case True
    with Cons.prems have rest: "insert_places eng t ps ?w1 = (Some e, w')"
      by (auto simp: adding_def split_def split: if_splits)
    from Cons.IH [OF rest] obtain pre q rest ms rc m r1 r2 r3 r4 where
      *: "e = Return 1" "ps = pre @ q # rest" "length ms = length pre" "rc \<noteq> SQLITE_OK"
        "trace w' = trace ?w1 @ map2 (inserted t) pre ms @
           [(sqlite3_exec (insert_sql t (snd q)), (rc, m)), (sqlite3_free, r1),
            (sqlite3_close, r2), (spatialite_cleanup_ex, r3), (spatialite_shutdown, r4)]"
      by blast
    have "?r = (SQLITE_OK, snd ?r)"
      using True by (simp add: prod_eq_iff)
    then have "trace ?w1 = trace w @ [inserted t p (snd ?r)]"
      by (simp add: inserted_def)
    with * show ?thesis
      by - (rule exI [of _ "p # pre"], rule exI [of _ q], rule exI [of _ rest], rule exI [of _ "snd ?r # ms"], rule exI [of _ rc], rule exI [of _ m], rule exI [of _ r1], rule exI [of _ r2], rule exI [of _ r3], rule exI [of _ r4],
        simp)
  next
    case False
    with Cons.prems have e: "e = Return 1"
      and w': "w' = handle_error eng (snd ?r)
                 (print_err (''Error adding '' @ fst p @ '': '' @ snd ?r) ?w1)"
      by (auto simp: adding_def split_def split: if_splits)
    have "?r = (fst ?r, snd ?r)"
      by simp
    with False e w' show ?thesis
      by - (rule exI [of _ "[]"], rule exI [of _ p], rule exI [of _ ps], rule exI [of _ "[]"], rule exI [of _ "fst ?r"], rule exI [of _ "snd ?r"],
        simp add: handle_error_def Let_def adding_def)
  qed
qed

lemma insert_places_cout:
  "insert_places eng t ps w = (None, w') \<Longrightarrow> cout w' = cout w @ map adding ps"
proof (induction ps arbitrary: w)
  case Nil
  then show ?case by simp
next
  case (Cons p ps)
  let ?w1 = "snd (invoke eng (sqlite3_exec (insert_sql t (snd p))) (print_out (adding p) w))"
  from Cons.prems have "insert_places eng t ps ?w1 = (None, w')"
    by (auto simp: adding_def split_def split: if_splits)
  from Cons.IH [OF this] show ?case
    by simp
qed

lemma insert_places_1_None:
  assumes "insert_places eng t places_1 w = (None, w')"
  shows "\<exists>m1 m2 m3. trace w' = trace w @
           [(sqlite3_exec (insert_sql t ''POINT(-43.1729 -22.9068)''), (SQLITE_OK, m1)),
            (sqlite3_exec (insert_sql t ''POINT(-54.5854 -25.5165)''), (SQLITE_OK, m2)),
            (sqlite3_exec (insert_sql t ''POINT(-32.423786 -3.853808)''), (SQLITE_OK, m3))]"
proof -
  from insert_places_None [OF assms] obtain ms where
    "length ms = length places_1" "trace w' = trace w @ map2 (inserted t) places_1 ms"
    by blast
  then show ?thesis
    by (auto simp: places_1_def inserted_def length_Suc_conv)
qed

lemma insert_places_1_Some:
  assumes "insert_places eng t places_1 w = (Some e, w')"
  shows "\<exists>rc m r1 r2 r3 r4 m1 m2 oks wkt. e = Return 1 \<and> rc \<noteq> SQLITE_OK \<and>
           trace w' = trace w @ oks @
             [(sqlite3_exec (insert_sql t wkt), (rc, m)), (sqlite3_free, r1), (sqlite3_close, r2),
              (spatialite_cleanup_ex, r3), (spatialite_shutdown, r4)] \<and>
           (oks = [] \<and> wkt = ''POINT(-43.1729 -22.9068)'' \<or>
            oks = [(sqlite3_exec (insert_sql t ''POINT(-43.1729 -22.9068)''), (SQLITE_OK, m1))] \<and>
              wkt = ''POINT(-54.5854 -25.5165)'' \<or>
            oks = [(sqlite3_exec (insert_sql t ''POINT(-43.1729 -22.9068)''), (SQLITE_OK, m1)),
                   (sqlite3_exec (insert_sql t ''POINT(-54.5854 -25.5165)''), (SQLITE_OK, m2))] \<and>
              wkt = ''POINT(-32.423786 -3.853808)'')"
proof -
  from insert_places_Some [OF assms] obtain pre p rest ms rc m r1 r2 r3 r4 where
    *: "e = Return 1" "places_1 = pre @ p # rest" "length ms = length pre" "rc \<noteq> SQLITE_OK"
      "trace w' = trace w @ map2 (inserted t) pre ms @
         [(sqlite3_exec (insert_sql t (snd p)), (rc, m)), (sqlite3_free, r1),
          (sqlite3_close, r2), (spatialite_cleanup_ex, r3), (spatialite_shutdown, r4)]"
    by blast
  from *(2) consider
      "pre = []" "p = (''Rio de Janeiro'', ''POINT(-43.1729 -22.9068)'')"
    | "pre = [(''Rio de Janeiro'', ''POINT(-43.1729 -22.9068)'')]"
      "p = (''Foz do Iguacu'', ''POINT(-54.5854 -25.5165)'')"
    | "pre = [(''Rio de Janeiro'', ''POINT(-43.1729 -22.9068)''),
              (''Foz do Iguacu'', ''POINT(-54.5854 -25.5165)'')]"
      "p = (''Fernando de Noronha'', ''POINT(-32.423786 -3.853808)'')"
    unfolding places_1_def by (auto simp: Cons_eq_append_conv)
  then show ?thesis
  proof cases
    case 1
    with * show ?thesis by auto
  next
    case 2
    with * show ?thesis by (auto simp: inserted_def length_Suc_conv)
  next
    case 3
    with * show ?thesis by (auto simp: inserted_def length_Suc_conv)
  qed
qed

subsection \<open>The query loop\<close>

lemma in_round_trace:
  "(c, r) \<in> set (round_trace t p a) \<longleftrightarrow>
     c = sqlite3_prepare_v2 (within_sql t (snd p)) \<and> r = (SQLITE_OK, prepared a) \<or>
     c = sqlite3_step (within_sql t (snd p)) \<and> r = stepped a \<or>
     c = sqlite3_column_text (within_sql t (snd p)) \<and> fst (stepped a) = SQLITE_ROW \<and> r = column a \<or>
     c = sqlite3_finalize (within_sql t (snd p)) \<and> r = finalized a"
  by (auto simp: round_trace_def)

lemma round_trace_no_setenv [simp]: "filter is_setenv (map fst (round_trace t p a)) = []"
  by (simp add: round_trace_def)

lemma report_place_world:
  "\<exists>stepped col fin.
     trace (report_place eng name q w) =
       trace w @ (sqlite3_step q, stepped) #
         (if fst stepped = SQLITE_ROW then [(sqlite3_column_text q, col)] else []) @
         [(sqlite3_finalize q, fin)] \<and>
     cout (report_place eng name q w) =
       cout w @ [name @ '' ---> '' @ (if fst stepped = SQLITE_ROW then snd col else ''Not found'')] \<and>
     cerr (report_place eng name q w) = cerr w"
proof -
  let ?s = "reply_of eng (sqlite3_step q) w"
  let ?w1 = "snd (invoke eng (sqlite3_step q) w)"
  show ?thesis
  proof (cases "fst ?s = SQLITE_ROW")
    case True
    then show ?thesis
      by - (rule exI [of _ ?s], rule exI [of _ "reply_of eng (sqlite3_column_text q) ?w1"],
        auto simp: report_place_def Let_def split_def)
  next
    case False
    then show ?thesis
      by - (rule exI [of _ ?s],
        auto simp: report_place_def Let_def split_def)
  qed
qed

lemma query_places_None:
  assumes "query_places eng t ps w = (None, w')"
  shows "\<exists>rs. length rs = length ps \<and>
           trace w' = trace w @ concat (map2 (round_trace t) ps rs) \<and>
           cout w' = cout w @ map2 round_line ps rs \<and> cerr w' = cerr w"
  using assms
proof (induction ps arbitrary: w)
  case Nil
  then show ?case by simp
next
  case (Cons p ps)
  let ?q = "within_sql t (snd p)"
  let ?r = "reply_of eng (sqlite3_prepare_v2 ?q) w"
  let ?w1 = "snd (invoke eng (sqlite3_prepare_v2 ?q) w)"
  let ?w2 = "report_place eng (fst p) ?q ?w1"
  from Cons.prems have ok: "fst ?r = SQLITE_OK" and rest: "query_places eng t ps ?w2 = (None, w')"
    by (auto simp: split_def split: if_splits)
  from Cons.IH [OF rest] obtain rs where rs: "length rs = length ps"
    "trace w' = trace ?w2 @ concat (map2 (round_trace t) ps rs)"
    "cout w' = cout ?w2 @ map2 round_line ps rs" "cerr w' = cerr ?w2"
    by blast
  from report_place_world [of eng "fst p" ?q ?w1] obtain stepped col fin where
    round: "trace ?w2 = trace ?w1 @ (sqlite3_step ?q, stepped) #
        (if fst stepped = SQLITE_ROW then [(sqlite3_column_text ?q, col)] else []) @
        [(sqlite3_finalize ?q, fin)]"
      "cout ?w2 = cout ?w1 @
         [fst p @ '' ---> '' @ (if fst stepped = SQLITE_ROW then snd col else ''Not found'')]"
      "cerr ?w2 = cerr ?w1"
    by blast
  have "?r = (SQLITE_OK, snd ?r)"
    using ok by (simp add: prod_eq_iff)
  then have "trace ?w1 = trace w @ [(sqlite3_prepare_v2 ?q, (SQLITE_OK, snd ?r))]"
    by simp
  with rs round show ?case
    by - (rule exI [of _ "\<lparr>prepared = snd ?r, stepped = stepped, column = col, finalized = fin\<rparr> # rs"],
        simp add: round_trace_def round_line_def)
qed

lemma query_places_Some:
  assumes "query_places eng t ps w = (Some e, w')"
  shows "\<exists>pre p rest rs rc m c msg r1 r2 r3. e = Return 1 \<and> ps = pre @ p # rest \<and>
           length rs = length pre \<and> rc \<noteq> SQLITE_OK \<and>
           trace w' = trace w @ concat (map2 (round_trace t) pre rs) @
             [(sqlite3_prepare_v2 (within_sql t (snd p)), (rc, m)), (sqlite3_errmsg, (c, msg)),
              (sqlite3_close, r1), (spatialite_cleanup_ex, r2), (spatialite_shutdown, r3)] \<and>
           cout w' = cout w @ map2 round_line pre rs \<and>
           cerr w' = cerr w @ [''Error preparing statement: '' @ msg]"
  using assms
proof (induction ps arbitrary: w)
  case Nil
  then show ?case by simp
next
  case (Cons p ps)
  let ?q = "within_sql t (snd p)"
  let ?r = "reply_of eng (sqlite3_prepare_v2 ?q) w"
  let ?w1 = "snd (invoke eng (sqlite3_prepare_v2 ?q) w)"
  let ?w2 = "report_place eng (fst p) ?q ?w1"
  show ?case
  proof (cases "fst ?r = SQLITE_OK")
    case True
    with Cons.prems have rest: "query_places eng t ps ?w2 = (Some e, w')"
      by (auto simp: split_def split: if_splits)
    from Cons.IH [OF rest] obtain pre p' rest rs rc m c msg r1 r2 r3 where
      *: "e = Return 1" "ps = pre @ p' # rest" "length rs = length pre" "rc \<noteq> SQLITE_OK"
        "trace w' = trace ?w2 @ concat (map2 (round_trace t) pre rs) @
           [(sqlite3_prepare_v2 (within_sql t (snd p')), (rc, m)), (sqlite3_errmsg, (c, msg)),
            (sqlite3_close, r1), (spatialite_cleanup_ex, r2), (spatialite_shutdown, r3)]"
        "cout w' = cout ?w2 @ map2 round_line pre rs"
        "cerr w' = cerr ?w2 @ [''Error preparing statement: '' @ msg]"
      by blast
    from report_place_world [of eng "fst p" ?q ?w1] obtain stepped col fin where
      round: "trace ?w2 = trace ?w1 @ (sqlite3_step ?q, stepped) #
          (if fst stepped = SQLITE_ROW then [(sqlite3_column_text ?q, col)] else []) @
          [(sqlite3_finalize ?q, fin)]"
        "cout ?w2 = cout ?w1 @
           [fst p @ '' ---> '' @ (if fst stepped = SQLITE_ROW then snd col else ''Not found'')]"
        "cerr ?w2 = cerr ?w1"
      by blast
    have "?r = (SQLITE_OK, snd ?r)"
      using True by (simp add: prod_eq_iff)
    then have "trace ?w1 = trace w @ [(sqlite3_prepare_v2 ?q, (SQLITE_OK, snd ?r))]"
      by simp
    with * round show ?thesis
      by - (rule exI [of _ "p # pre"], rule exI [of _ p'], rule exI [of _ rest], rule exI [of _ "\<lparr>prepared = snd ?r, stepped = stepped, column = col, finalized = fin\<rparr> # rs"], rule exI [of _ rc], rule exI [of _ m], rule exI [of _ c], rule exI [of _ msg], rule exI [of _ r1], rule exI [of _ r2], rule exI [of _ r3],
        simp add: round_trace_def round_line_def)
  next
    case False
    let ?m = "reply_of eng sqlite3_errmsg ?w1"
    have "?r = (fst ?r, snd ?r)" "?m = (fst ?m, snd ?m)"
      by simp_all
    with False Cons.prems show ?thesis
      by - (rule exI [of _ "[]"], rule exI [of _ p], rule exI [of _ ps], rule exI [of _ "[]"], rule exI [of _ "fst ?r"], rule exI [of _ "snd ?r"], rule exI [of _ "fst ?m"], rule exI [of _ "snd ?m"],
        auto simp: split_def)
  qed
qed

lemma query_places_2_None:
  assumes "query_places eng t places_2 w = (None, w')"
  obtains a1 a2 a3 a4 a5 where
    "trace w' = trace w @
       round_trace t (''Rio de Janeiro'', ''POINT(-43.1729 -22.9068)'') a1 @
       round_trace t (''Foz do Iguacu'', ''POINT(-54.5854 -25.5165)'') a2 @
       round_trace t (''Fernando de Noronha'', ''POINT(-32.423786 -3.853808)'') a3 @
       round_trace t (''Null Island'', ''POINT(0 0)'') a4 @
       round_trace t (''New York'', ''POINT(-74.0060 40.7128)'') a5"
    "cout w' = cout w @
       [round_line (''Rio de Janeiro'', ''POINT(-43.1729 -22.9068)'') a1,
        round_line (''Foz do Iguacu'', ''POINT(-54.5854 -25.5165)'') a2,
        round_line (''Fernando de Noronha'', ''POINT(-32.423786 -3.853808)'') a3,
        round_line (''Null Island'', ''POINT(0 0)'') a4,
        round_line (''New York'', ''POINT(-74.0060 40.7128)'') a5]"
proof -
  from query_places_None [OF assms] obtain rs where
    rs: "length rs = length places_2"
      "trace w' = trace w @ concat (map2 (round_trace t) places_2 rs)"
      "cout w' = cout w @ map2 round_line places_2 rs"
    by blast
  from rs(1) obtain a1 a2 a3 a4 a5 where "rs = [a1, a2, a3, a4, a5]"
    by (auto simp: places_2_def length_Suc_conv)
  with rs(2,3) show thesis
    by (intro that [of a1 a2 a3 a4 a5]) (simp_all add: places_2_def)
qed

lemma query_places_2_Some [consumes 1, case_names first second third fourth fifth]:
  assumes "query_places eng t places_2 w = (Some e, w')"
  obtains
    (first)  rc m c msg r1 r2 r3 where
      "e = Return 1" "rc \<noteq> SQLITE_OK"
      "trace w' = trace w @
         aborted t ''POINT(-43.1729 -22.9068)'' rc m c msg r1 r2 r3"
      "cout w' = cout w @ []"
  | (second) a1 rc m c msg r1 r2 r3 where
      "e = Return 1" "rc \<noteq> SQLITE_OK"
      "trace w' = trace w @
         round_trace t (''Rio de Janeiro'', ''POINT(-43.1729 -22.9068)'') a1 @
         aborted t ''POINT(-54.5854 -25.5165)'' rc m c msg r1 r2 r3"
      "cout w' = cout w @ [round_line (''Rio de Janeiro'', ''POINT(-43.1729 -22.9068)'') a1]"
  | (third) a1 a2 rc m c msg r1 r2 r3 where
      "e = Return 1" "rc \<noteq> SQLITE_OK"
      "trace w' = trace w @
         round_trace t (''Rio de Janeiro'', ''POINT(-43.1729 -22.9068)'') a1 @
         round_trace t (''Foz do Iguacu'', ''POINT(-54.5854 -25.5165)'') a2 @
         aborted t ''POINT(-32.423786 -3.853808)'' rc m c msg r1 r2 r3"
      "cout w' = cout w @ [round_line (''Rio de Janeiro'', ''POINT(-43.1729 -22.9068)'') a1, round_line (''Foz do Iguacu'', ''POINT(-54.5854 -25.5165)'') a2]"
  | (fourth) a1 a2 a3 rc m c msg r1 r2 r3 where
      "e = Return 1" "rc \<noteq> SQLITE_OK"
      "trace w' = trace w @
         round_trace t (''Rio de Janeiro'', ''POINT(-43.1729 -22.9068)'') a1 @
         round_trace t (''Foz do Iguacu'', ''POINT(-54.5854 -25.5165)'') a2 @
         round_trace t (''Fernando de Noronha'', ''POINT(-32.423786 -3.853808)'') a3 @
         aborted t ''POINT(0 0)'' rc m c msg r1 r2 r3"
      "cout w' = cout w @ [round_line (''Rio de Janeiro'', ''POINT(-43.1729 -22.9068)'') a1, round_line (''Foz do Iguacu'', ''POINT(-54.5854 -25.5165)'') a2, round_line (''Fernando de Noronha'', ''POINT(-32.423786 -3.853808)'') a3]"
  | (fifth) a1 a2 a3 a4 rc m c msg r1 r2 r3 where
      "e = Return 1" "rc \<noteq> SQLITE_OK"
      "trace w' = trace w @
         round_trace t (''Rio de Janeiro'', ''POINT(-43.1729 -22.9068)'') a1 @
         round_trace t (''Foz do Iguacu'', ''POINT(-54.5854 -25.5165)'') a2 @
         round_trace t (''Fernando de Noronha'', ''POINT(-32.423786 -3.853808)'') a3 @
         round_trace t (''Null Island'', ''POINT(0 0)'') a4 @
         aborted t ''POINT(-74.0060 40.7128)'' rc m c msg r1 r2 r3"
      "cout w' = cout w @ [round_line (''Rio de Janeiro'', ''POINT(-43.1729 -22.9068)'') a1, round_line (''Foz do Iguacu'', ''POINT(-54.5854 -25.5165)'') a2, round_line (''Fernando de Noronha'', ''POINT(-32.423786 -3.853808)'') a3, round_line (''Null Island'', ''POINT(0 0)'') a4]"
proof -
  from query_places_Some [OF assms] obtain pre p rest rs rc m c msg r1 r2 r3 where
    *: "e = Return 1" "places_2 = pre @ p # rest" "length rs = length pre" "rc \<noteq> SQLITE_OK"
      "trace w' = trace w @ concat (map2 (round_trace t) pre rs) @
         aborted t (snd p) rc m c msg r1 r2 r3"
      "cout w' = cout w @ map2 round_line pre rs"
    unfolding aborted_def by blast
  from *(2) consider
      "pre = []" "snd p = ''POINT(-43.1729 -22.9068)''"
    | "pre = [(''Rio de Janeiro'', ''POINT(-43.1729 -22.9068)'')]" "snd p = ''POINT(-54.5854 -25.5165)''"
    | "pre = [(''Rio de Janeiro'', ''POINT(-43.1729 -22.9068)''),
              (''Foz do Iguacu'', ''POINT(-54.5854 -25.5165)'')]" "snd p = ''POINT(-32.423786 -3.853808)''"
    | "pre = [(''Rio de Janeiro'', ''POINT(-43.1729 -22.9068)''),
              (''Foz do Iguacu'', ''POINT(-54.5854 -25.5165)''),
              (''Fernando de Noronha'', ''POINT(-32.423786 -3.853808)'')]" "snd p = ''POINT(0 0)''"
    | "pre = [(''Rio de Janeiro'', ''POINT(-43.1729 -22.9068)''),
              (''Foz do Iguacu'', ''POINT(-54.5854 -25.5165)''),
              (''Fernando de Noronha'', ''POINT(-32.423786 -3.853808)''),
              (''Null Island'', ''POINT(0 0)'')]" "snd p = ''POINT(-74.0060 40.7128)''"
    unfolding places_2_def by (auto simp: Cons_eq_append_conv)
  then show thesis
  proof cases
    case 1
    with * show thesis
      by (intro first [where rc = rc and m = m and c = c and msg = msg and ?r1.0 = r1
            and ?r2.0 = r2 and ?r3.0 = r3]) simp_all
  next
    case 2
    with *(3) obtain a1 where "rs = [a1]"
      by (auto simp: length_Suc_conv)
    with 2 * show thesis
      by (intro second [where rc = rc and m = m and c = c and msg = msg and ?r1.0 = r1
            and ?r2.0 = r2 and ?r3.0 = r3 and ?a1.0 = a1]) simp_all
  next
    case 3
    with *(3) obtain a1 a2 where "rs = [a1, a2]"
      by (auto simp: length_Suc_conv)
    with 3 * show thesis
      by (intro third [where rc = rc and m = m and c = c and msg = msg and ?r1.0 = r1
            and ?r2.0 = r2 and ?r3.0 = r3 and ?a1.0 = a1 and ?a2.0 = a2]) simp_all
  next
    case 4
    with *(3) obtain a1 a2 a3 where "rs = [a1, a2, a3]"
      by (auto simp: length_Suc_conv)
    with 4 * show thesis
      by (intro fourth [where rc = rc and m = m and c = c and msg = msg and ?r1.0 = r1
            and ?r2.0 = r2 and ?r3.0 = r3 and ?a1.0 = a1 and ?a2.0 = a2 and ?a3.0 = a3]) simp_all
  next
    case 5
    with *(3) obtain a1 a2 a3 a4 where "rs = [a1, a2, a3, a4]"
      by (auto simp: length_Suc_conv)
    with 5 * show thesis
      by (intro fifth [where rc = rc and m = m and c = c and msg = msg and ?r1.0 = r1
            and ?r2.0 = r2 and ?r3.0 = r3 and ?a1.0 = a1 and ?a2.0 = a2 and ?a3.0 = a3 and ?a4.0 = a4]) simp_all
  qed
qed

lemma rounds_not_found:
  assumes "length rs = length ps"
    and "(sqlite3_step (within_sql t wkt), (rc, x)) \<in> set (concat (map2 (round_trace t) ps rs))"
    and "rc \<noteq> SQLITE_ROW"
  shows "\<exists>place. (place, wkt) \<in> set ps \<and>
           place @ '' ---> Not found'' \<in> set (map2 round_line ps rs)"
  using assms
proof (induction rs ps rule: list_induct2)
  case Nil
  then show ?case by simp
next
  case (Cons a rs p ps)
  show ?case
  proof (cases "(sqlite3_step (within_sql t wkt), (rc, x)) \<in> set (round_trace t p a)")
    case True
    then have "snd p = wkt" "stepped a = (rc, x)"
      by (simp_all add: in_round_trace)
    with Cons.prems(2) have "(fst p, wkt) \<in> set (p # ps)"
      "round_line p a = fst p @ '' ---> Not found''"
      by (simp_all add: round_line_def prod_eq_iff)
    then show ?thesis
      by (intro exI [of _ "fst p"]) simp
  next
    case False
    with Cons.prems have "(sqlite3_step (within_sql t wkt), (rc, x))
        \<in> set (concat (map2 (round_trace t) ps rs))"
      by simp
    from Cons.IH [OF this Cons.prems(2)] obtain place where
      "(place, wkt) \<in> set ps" "place @ '' ---> Not found'' \<in> set (map2 round_line ps rs)"
      by blast
    then show ?thesis
      by (intro exI [of _ place]) simp
  qed
qed

lemma rounds_step_all:
  assumes "length rs = length ps" and "p \<in> set ps"
  shows "\<exists>r. (sqlite3_step (within_sql t (snd p)), r) \<in> set (concat (map2 (round_trace t) ps rs))"
  using assms
proof (induction rs ps rule: list_induct2)
  case Nil
  then show ?case by simp
next
  case (Cons a rs q ps)
  show ?case
  proof (cases "p = q")
    case True
    then show ?thesis
      by (intro exI [of _ "stepped a"]) (simp add: in_round_trace)
  next
    case False
    with Cons.prems have "p \<in> set ps"
      by simp
    from Cons.IH [OF this] obtain r where
      "(sqlite3_step (within_sql t (snd p)), r) \<in> set (concat (map2 (round_trace t) ps rs))"
      by blast
    then show ?thesis
      by (intro exI [of _ r]) simp
  qed
qed

lemma distinct_snd_functional:
  "distinct (map snd xs) \<Longrightarrow> (a, k) \<in> set xs \<Longrightarrow> (b, k) \<in> set xs \<Longrightarrow> a = b"
  by (induction xs) (force simp: image_iff)+

lemma places_2_functional:
  assumes "(a, wkt) \<in> set places_2" and "(b, wkt) \<in> set places_2"
  shows "a = b"
proof -
  have "distinct (map snd places_2)"
    by (simp add: places_2_def)
  from this assms show ?thesis
    by (rule distinct_snd_functional)
qed

subsection \<open>The paths through the two runners\<close>

lemma seq_cases:
  assumes "(case b of (Some e0, w1) \<Rightarrow> (e0, w1) | (None, w1) \<Rightarrow> r w1) = (e, w')"
  obtains "b = (Some e, w')" | w1 where "b = (None, w1)" "r w1 = (e, w')"
  using assms by (auto split: prod.splits option.splits)

lemma run_example_1_cases [consumes 1, case_names open_failed bootstrap_failed create_failed
    geometry_failed begin_failed insert_failed commit_failed finished]:
  assumes "run_example_1 eng name w = (e, w')"
  obtains
    (open_failed) "open_database eng name (show_versions eng w) = (Some e, w')"
  | (bootstrap_failed) w1 where
      "open_database eng name (show_versions eng w) = (None, w1)"
      "bootstrap eng w1 = (Some e, w')"
  | (create_failed) w1 w2 where
      "open_database eng name (show_versions eng w) = (None, w1)"
      "bootstrap eng w1 = (None, w2)"
      "exec_or_fail eng (create_table_sql ''points'') ''Error creating table: ''
         (print_out ''Creating table: points'' w2) = (Some e, w')"
  | (geometry_failed) w1 w2 w3 where
      "open_database eng name (show_versions eng w) = (None, w1)"
      "bootstrap eng w1 = (None, w2)"
      "exec_or_fail eng (create_table_sql ''points'') ''Error creating table: ''
         (print_out ''Creating table: points'' w2) = (None, w3)"
      "exec_or_fail eng (add_geometry_sql ''points'') ''Error adding geometry column: ''
         (print_out ''Adding geometry column to table: points'' w3) = (Some e, w')"
  | (begin_failed) w1 w2 w3 w4 where
      "open_database eng name (show_versions eng w) = (None, w1)"
      "bootstrap eng w1 = (None, w2)"
      "exec_or_fail eng (create_table_sql ''points'') ''Error creating table: ''
         (print_out ''Creating table: points'' w2) = (None, w3)"
      "exec_or_fail eng (add_geometry_sql ''points'') ''Error adding geometry column: ''
         (print_out ''Adding geometry column to table: points'' w3) = (None, w4)"
      "exec_or_fail eng begin_sql ''Error starting transaction: ''
         (print_out ''Adding some tourist places in Brazil...'' w4) = (Some e, w')"
  | (insert_failed) w1 w2 w3 w4 w5 where
      "open_database eng name (show_versions eng w) = (None, w1)"
      "bootstrap eng w1 = (None, w2)"
      "exec_or_fail eng (create_table_sql ''points'') ''Error creating table: ''
         (print_out ''Creating table: points'' w2) = (None, w3)"
      "exec_or_fail eng (add_geometry_sql ''points'') ''Error adding geometry column: ''
         (print_out ''Adding geometry column to table: points'' w3) = (None, w4)"
      "exec_or_fail eng begin_sql ''Error starting transaction: ''
         (print_out ''Adding some tourist places in Brazil...'' w4) = (None, w5)"
      "insert_places eng ''points'' places_1 w5 = (Some e, w')"
  | (commit_failed) w1 w2 w3 w4 w5 w6 where
      "open_database eng name (show_versions eng w) = (None, w1)"
      "bootstrap eng w1 = (None, w2)"
      "exec_or_fail eng (create_table_sql ''points'') ''Error creating table: ''
         (print_out ''Creating table: points'' w2) = (None, w3)"
      "exec_or_fail eng (add_geometry_sql ''points'') ''Error adding geometry column: ''
         (print_out ''Adding geometry column to table: points'' w3) = (None, w4)"
      "exec_or_fail eng begin_sql ''Error starting transaction: ''
         (print_out ''Adding some tourist places in Brazil...'' w4) = (None, w5)"
      "insert_places eng ''points'' places_1 w5 = (None, w6)"
      "exec_or_fail eng commit_sql ''Error committing transaction: ''
         (print_out ''Committing transaction...'' w6) = (Some e, w')"
  | (finished) w1 w2 w3 w4 w5 w6 w7 where
      "open_database eng name (show_versions eng w) = (None, w1)"
      "bootstrap eng w1 = (None, w2)"
      "exec_or_fail eng (create_table_sql ''points'') ''Error creating table: ''
         (print_out ''Creating table: points'' w2) = (None, w3)"
      "exec_or_fail eng (add_geometry_sql ''points'') ''Error adding geometry column: ''
         (print_out ''Adding geometry column to table: points'' w3) = (None, w4)"
      "exec_or_fail eng begin_sql ''Error starting transaction: ''
         (print_out ''Adding some tourist places in Brazil...'' w4) = (None, w5)"
      "insert_places eng ''points'' places_1 w5 = (None, w6)"
      "exec_or_fail eng commit_sql ''Error committing transaction: ''
         (print_out ''Committing transaction...'' w6) = (None, w7)"
      "finish eng ''Example 1 Done.'' w7 = (e, w')"
  using assms unfolding run_example_1_def Let_def
  by (elim seq_cases) (simp_all only: append.simps)

lemma run_example_2_cases [consumes 1, case_names open_failed bootstrap_failed import_failed
    query_failed finished]:
  assumes "run_example_2 eng name w = (e, w')"
  obtains
    (open_failed)
      "open_database eng name (invoke_void eng (setenv ''SPATIALITE_SECURITY'' ''relaxed'') w) =
         (Some e, w')"
  | (bootstrap_failed) w1 where
      "open_database eng name (invoke_void eng (setenv ''SPATIALITE_SECURITY'' ''relaxed'') w) =
         (None, w1)"
      "bootstrap eng w1 = (Some e, w')"
  | (import_failed) w1 w2 where
      "open_database eng name (invoke_void eng (setenv ''SPATIALITE_SECURITY'' ''relaxed'') w) =
         (None, w1)"
      "bootstrap eng w1 = (None, w2)"
      "exec_or_fail eng (import_sql ''../shp/BR_UF_2022'' ''location'')
         ''Error importing shapefile: ''
         (print_out (import_sql ''../shp/BR_UF_2022'' ''location'')
            (print_out (''Importing shapefile: '' @ ''../shp/BR_UF_2022'') w2)) = (Some e, w')"
  | (query_failed) w1 w2 w3 where
      "open_database eng name (invoke_void eng (setenv ''SPATIALITE_SECURITY'' ''relaxed'') w) =
         (None, w1)"
      "bootstrap eng w1 = (None, w2)"
      "exec_or_fail eng (import_sql ''../shp/BR_UF_2022'' ''location'')
         ''Error importing shapefile: ''
         (print_out (import_sql ''../shp/BR_UF_2022'' ''location'')
            (print_out (''Importing shapefile: '' @ ''../shp/BR_UF_2022'') w2)) = (None, w3)"
      "query_places eng ''location'' places_2
         (print_out
            ''Checking what are the correspoding State names for the following points:'' w3) =
         (Some e, w')"
  | (finished) w1 w2 w3 w4 where
      "open_database eng name (invoke_void eng (setenv ''SPATIALITE_SECURITY'' ''relaxed'') w) =
         (None, w1)"
      "bootstrap eng w1 = (None, w2)"
      "exec_or_fail eng (import_sql ''../shp/BR_UF_2022'' ''location'')
         ''Error importing shapefile: ''
         (print_out (import_sql ''../shp/BR_UF_2022'' ''location'')
            (print_out (''Importing shapefile: '' @ ''../shp/BR_UF_2022'') w2)) = (None, w3)"
      "query_places eng ''location'' places_2
         (print_out
            ''Checking what are the correspoding State names for the following points:'' w3) =
         (None, w4)"
      "finish eng ''Example 2 Done.'' w4 = (e, w')"
  using assms unfolding run_example_2_def Let_def
  by (elim seq_cases) (simp_all only: append.simps)

lemmas block_traces =
  open_database_None open_database_Some bootstrap_None bootstrap_Some
  exec_or_fail_None exec_or_fail_Some insert_places_1_None insert_places_1_Some finish_world

lemmas early_traces =
  open_database_None open_database_Some bootstrap_None bootstrap_Some
  exec_or_fail_None exec_or_fail_Some

lemma in_calls: "c \<in> set (calls w) \<longleftrightarrow> (\<exists>r. (c, r) \<in> set (trace w))"
  by (force simp: calls_def image_iff)

lemma before_queries:
  assumes "open_database eng name (invoke_void eng (setenv ''SPATIALITE_SECURITY'' ''relaxed'') (start s)) = (None, w1)"
    and "bootstrap eng w1 = (None, w2)"
    and "exec_or_fail eng (import_sql ''../shp/BR_UF_2022'' ''location'')
         ''Error importing shapefile: ''
         (print_out (import_sql ''../shp/BR_UF_2022'' ''location'')
            (print_out (''Importing shapefile: '' @ ''../shp/BR_UF_2022'') w2)) = (None, w3)"
  shows "(sqlite3_step (within_sql t wkt), r) \<notin> set (trace w3) \<and>
         (sqlite3_column_text q, r) \<notin> set (trace w3) \<and>
         (sqlite3_prepare_v2 (within_sql t wkt), r) \<notin> set (trace w3)"
  using assms by (auto simp: start_def dest!: early_traces)

lemma finish_trace_frame:
  assumes "finish eng line w = (e, w')"
  shows "e = Return 0 \<and> (\<exists>ext. trace w' = trace w @ ext \<and>
           (\<forall>q r. (sqlite3_step q, r) \<notin> set ext \<and> (sqlite3_column_text q, r) \<notin> set ext \<and>
                  (sqlite3_prepare_v2 q, r) \<notin> set ext))"
  using assms by (auto dest!: finish_world)

subsection \<open>Runs on the concrete engines\<close>

lemmas run_defs =
  run_example_1_def run_example_2_def show_versions_def open_database_def bootstrap_def
  spatial_metadata_exists_def exec_or_fail_def handle_error_def finish_def report_place_def
  places_1_def places_2_def invoke_def invoke_void_def print_out_def print_err_def start_def
  Let_def SQLITE_OK_def SQLITE_ROW_def

lemma initialized_run_1:
  "run_example_1 initialized ''x.db'' (start ()) =
     (Return 0,
      \<lparr>engine_state = (),
       trace =
         [(sqlite3_libversion, (0, [])), (spatialite_version, (0, [])),
          (sqlite3_open_v2 ''x.db'', (0, [])), (spatialite_alloc_connection, (0, [])),
          (spatialite_init_ex, (0, [])), (sqlite3_prepare_v2 check_sql, (0, [])),
          (sqlite3_step check_sql, (100, [])), (sqlite3_finalize check_sql, (0, [])),
          (sqlite3_exec (create_table_sql ''points''), (0, [])),
          (sqlite3_exec (add_geometry_sql ''points''), (0, [])),
          (sqlite3_exec begin_sql, (0, [])),
          (sqlite3_exec (insert_sql ''points'' ''POINT(-43.1729 -22.9068)''), (0, [])),
          (sqlite3_exec (insert_sql ''points'' ''POINT(-54.5854 -25.5165)''), (0, [])),
          (sqlite3_exec (insert_sql ''points'' ''POINT(-32.423786 -3.853808)''), (0, [])),
          (sqlite3_exec commit_sql, (0, [])),
          (sqlite3_close, (0, [])), (spatialite_cleanup_ex, (0, [])),
          (spatialite_shutdown, (0, []))],
       cout =
         [''SQLite version: '', ''Spatialite version: '', ''Opening database: x.db'',
          ''Creating table: points'', ''Adding geometry column to table: points'',
          ''Adding some tourist places in Brazil...'',
          ''Adding Rio de Janeiro: POINT(-43.1729 -22.9068)'',
          ''Adding Foz do Iguacu: POINT(-54.5854 -25.5165)'',
          ''Adding Fernando de Noronha: POINT(-32.423786 -3.853808)'',
          ''Committing transaction...'', ''Example 1 Done.''],
       cerr = []\<rparr>)"
  by (simp add: run_defs initialized_def cong: prod.case_cong_weak let_weak_cong)

lemma initialized_trace_2:
  "(sqlite3_step check_sql, (SQLITE_ROW, [])) \<in>
     set (trace (snd (run_example_2 initialized ''x.db'' (start ()))))"
  by (simp add: run_defs initialized_def cong: prod.case_cong_weak let_weak_cong)

lemma brazil_run_2:
  "run_example_2 brazil ''x.db'' (start ()) =
     (Return 0,
      \<lparr>engine_state = (),
       trace =
         [(setenv ''SPATIALITE_SECURITY'' ''relaxed'', (0, [])),
          (sqlite3_open_v2 ''x.db'', (0, [])), (spatialite_alloc_connection, (0, [])),
          (spatialite_init_ex, (0, [])), (sqlite3_prepare_v2 check_sql, (0, [])),
          (sqlite3_step check_sql, (100, [])), (sqlite3_finalize check_sql, (0, [])),
          (sqlite3_exec (import_sql ''../shp/BR_UF_2022'' ''location''), (0, [])),
          (sqlite3_prepare_v2 (within_sql ''location'' ''POINT(-43.1729 -22.9068)''), (0, [])),
          (sqlite3_step (within_sql ''location'' ''POINT(-43.1729 -22.9068)''), (100, [])),
          (sqlite3_column_text (within_sql ''location'' ''POINT(-43.1729 -22.9068)''), (0, ''BR'')),
          (sqlite3_finalize (within_sql ''location'' ''POINT(-43.1729 -22.9068)''), (0, [])),
          (sqlite3_prepare_v2 (within_sql ''location'' ''POINT(-54.5854 -25.5165)''), (0, [])),
          (sqlite3_step (within_sql ''location'' ''POINT(-54.5854 -25.5165)''), (100, [])),
          (sqlite3_column_text (within_sql ''location'' ''POINT(-54.5854 -25.5165)''), (0, ''BR'')),
          (sqlite3_finalize (within_sql ''location'' ''POINT(-54.5854 -25.5165)''), (0, [])),
          (sqlite3_prepare_v2 (within_sql ''location'' ''POINT(-32.423786 -3.853808)''), (0, [])),
          (sqlite3_step (within_sql ''location'' ''POINT(-32.423786 -3.853808)''), (100, [])),
          (sqlite3_column_text (within_sql ''location'' ''POINT(-32.423786 -3.853808)''), (0, ''BR'')),
          (sqlite3_finalize (within_sql ''location'' ''POINT(-32.423786 -3.853808)''), (0, [])),
          (sqlite3_prepare_v2 (within_sql ''location'' ''POINT(0 0)''), (0, [])),
          (sqlite3_step (within_sql ''location'' ''POINT(0 0)''), (101, [])),
          (sqlite3_finalize (within_sql ''location'' ''POINT(0 0)''), (0, [])),
          (sqlite3_prepare_v2 (within_sql ''location'' ''POINT(-74.0060 40.7128)''), (0, [])),
          (sqlite3_step (within_sql ''location'' ''POINT(-74.0060 40.7128)''), (101, [])),
          (sqlite3_finalize (within_sql ''location'' ''POINT(-74.0060 40.7128)''), (0, [])),
          (sqlite3_close, (0, [])), (spatialite_cleanup_ex, (0, [])),
          (spatialite_shutdown, (0, []))],
       cout =
         [''Opening database: x.db'', ''Importing shapefile: ../shp/BR_UF_2022'',
          import_sql ''../shp/BR_UF_2022'' ''location'',
          ''Checking what are the correspoding State names for the following points:'',
          ''Rio de Janeiro ---> BR'', ''Foz do Iguacu ---> BR'', ''Fernando de Noronha ---> BR'',
          ''Null Island ---> Not found'', ''New York ---> Not found'', ''Example 2 Done.''],
       cerr = []\<rparr>)"
  by (simp add: run_defs brazil_def cong: prod.case_cong_weak let_weak_cong)

lemma second_insert_fails_run_1:
  "run_example_1 second_insert_fails ''x.db'' (start 0) =
     (Return 1,
      \<lparr>engine_state = 6,
       trace =
         [(sqlite3_libversion, (0, [])), (spatialite_version, (0, [])),
          (sqlite3_open_v2 ''x.db'', (0, [])), (spatialite_alloc_connection, (0, [])),
          (spatialite_init_ex, (0, [])), (sqlite3_prepare_v2 check_sql, (0, [])),
          (sqlite3_step check_sql, (101, [])), (sqlite3_finalize check_sql, (0, [])),
          (sqlite3_exec init_sql, (0, [])),
          (sqlite3_exec (create_table_sql ''points''), (0, [])),
          (sqlite3_exec (add_geometry_sql ''points''), (0, [])),
          (sqlite3_exec begin_sql, (0, [])),
          (sqlite3_exec (insert_sql ''points'' ''POINT(-43.1729 -22.9068)''), (0, [])),
          (sqlite3_exec (insert_sql ''points'' ''POINT(-54.5854 -25.5165)''),
             (19, ''constraint failed'')),
          (sqlite3_free, (0, [])), (sqlite3_close, (0, [])), (spatialite_cleanup_ex, (0, [])),
          (spatialite_shutdown, (0, []))],
       cout =
         [''SQLite version: '', ''Spatialite version: '', ''Opening database: x.db'',
          ''Initializing Spatialite...'',
          ''Creating table: points'', ''Adding geometry column to table: points'',
          ''Adding some tourist places in Brazil...'',
          ''Adding Rio de Janeiro: POINT(-43.1729 -22.9068)'',
          ''Adding Foz do Iguacu: POINT(-54.5854 -25.5165)''],
       cerr = [''Error adding Foz do Iguacu: constraint failed'', ''Error: constraint failed'']\<rparr>)"
  by (simp add: run_defs second_insert_fails_def cong: prod.case_cong_weak let_weak_cong)

section \<open>The argument parser\<close>

lemma show_usage_world:
  "trace (show_usage w) = trace w"
  "cerr (show_usage w) = cerr w"
  "cout (show_usage w) = cout w @
     [''Usage: sqlite3_spatialite_app [options]'', ''Options:'',
      ''  -h, --help              Show this help message'',
      ''  -i, --example-id <id>   ID of the example to run'',
      ''  -n, --db-name <name>    Name of the database file (if not provided, in-memory)'']"
  by (simp_all add: show_usage_def print_out_def)

lemma getopt_long_world:
  "trace (snd (getopt_long g w)) = trace w" "cout (snd (getopt_long g w)) = cout w"
  by (cases g; simp)+

lemma parse_options_usage:
  assumes "Diagnosed message \<in> set options \<or> Returned (CHR ''h'') x \<in> set options"
  shows "\<exists>w'. parse_options options a w = (Inl 0, w') \<and> cout w' = cout (show_usage w) \<and>
           trace w' = trace w \<and>
           (cerr w' = cerr w \<or> (\<exists>m. Diagnosed m \<in> set options \<and> cerr w' = cerr w @ [m]))"
  using assms
proof (induction options arbitrary: a w)
  case Nil
  then show ?case
    by simp
next
  case (Cons g later)
  show ?case
  proof (cases g)
    case (Returned c optarg)
    show ?thesis
    proof (cases "c = CHR ''h'' \<or> c = CHR ''?''")
      case True
      with Returned show ?thesis
        by (auto simp: show_usage_world)
    next
      case False
      with Returned Cons.prems have
        "Diagnosed message \<in> set later \<or> Returned (CHR ''h'') x \<in> set later"
        by auto
      from Cons.IH [OF this, of "a\<lparr>example_id := word_of_int (atoi optarg)\<rparr>" w]
        Cons.IH [OF this, of "a\<lparr>db_name := optarg, in_memory_db := False\<rparr>" w]
        Cons.IH [OF this, of a w] False Returned
      show ?thesis
        by (simp split: if_splits)
    qed
  next
    case (Diagnosed m)
    then show ?thesis
      by (auto simp: show_usage_world)
  qed
qed

lemma parse_options_first_diagnosed:
  assumes "\<forall>g\<in>set before. case g of Returned c x \<Rightarrow> c \<noteq> CHR ''h'' \<and> c \<noteq> CHR ''?''
             | Diagnosed m \<Rightarrow> False"
  shows "cerr (snd (parse_options (before @ Diagnosed message # later) a w)) =
           cerr w @ [message]"
  using assms
proof (induction before arbitrary: a w)
  case Nil
  then show ?case
    by (simp add: show_usage_world)
next
  case (Cons g before)
  then show ?case
    by (cases g) auto
qed

text \<open>
  Claim C9. \<^verbatim>\<open>getopt_long\<close> reports an option flag it does not recognize by writing
  its diagnostic to standard error and returning \<^verbatim>\<open>'?'\<close>. Whenever the command line
  holds such a flag, whatever the other options and arguments are, the program prints
  "parsing arguments..." and the usage message to standard output, calls neither library
  and exits with code 0, as it does for \<^verbatim>\<open>--help\<close>. The program writes nothing of its
  own to standard error: what is there is nothing (a \<^verbatim>\<open>--help\<close> came first and ended the
  run) or the one diagnostic of \<^verbatim>\<open>getopt_long\<close>; it is the diagnostic of the flag
  whenever no \<^verbatim>\<open>--help\<close> and no other rejected flag comes before it.
\<close>

theorem unknown_option_prints_usage:
  assumes "Diagnosed message \<in> set options"
  shows "fst (main eng options positional s) = Exit 0 \<and>
         cout (snd (main eng options positional s)) =
           [''parsing arguments...'',
            ''Usage: sqlite3_spatialite_app [options]'', ''Options:'',
            ''  -h, --help              Show this help message'',
            ''  -i, --example-id <id>   ID of the example to run'',
            ''  -n, --db-name <name>    Name of the database file (if not provided, in-memory)''] \<and>
         trace (snd (main eng options positional s)) = [] \<and>
         (cerr (snd (main eng options positional s)) = [] \<or>
          (\<exists>m. Diagnosed m \<in> set options \<and> cerr (snd (main eng options positional s)) = [m])) \<and>
         (\<forall>before later.
            options = before @ Diagnosed message # later \<and>
            (\<forall>g\<in>set before. case g of
               Returned c x \<Rightarrow> c \<noteq> CHR ''h'' \<and> c \<noteq> CHR ''?'' | Diagnosed m \<Rightarrow> False) \<longrightarrow>
            cerr (snd (main eng options positional s)) = [message])"
proof -
  let ?w = "print_out ''parsing arguments...'' (start s)"
  from assms parse_options_usage [of message options undefined initial_args ?w]
  obtain w' where parsed: "parse_options options initial_args ?w = (Inl 0, w')"
    and w': "cout w' = cout (show_usage ?w)" "trace w' = trace ?w"
      "cerr w' = cerr ?w \<or> (\<exists>m. Diagnosed m \<in> set options \<and> cerr w' = cerr ?w @ [m])"
    by blast
  from parsed have run: "main eng options positional s = (Exit 0, w')"
    by (simp add: main_def parse_args_def)
  have first: "cerr w' = [message]"
    if "options = before @ Diagnosed message # later"
      and "\<forall>g\<in>set before. case g of
             Returned c x \<Rightarrow> c \<noteq> CHR ''h'' \<and> c \<noteq> CHR ''?'' | Diagnosed m \<Rightarrow> False"
    for before later
    using parse_options_first_diagnosed [OF that(2), of message later initial_args ?w] parsed
    by (simp add: that(1) start_def)
  from w' first show ?thesis
    unfolding run by (simp add: show_usage_world start_def)
qed

theorem unknown_option_prints_usage_witness:
  "fst (main initialized [Returned (CHR ''i'') ''1'', Diagnosed ''no such option'']
          [''extra''] ()) = Exit 0 \<and>
   trace (snd (main initialized [Returned (CHR ''i'') ''1'', Diagnosed ''no such option'']
                 [''extra''] ())) = [] \<and>
   cerr (snd (main initialized [Returned (CHR ''i'') ''1'', Diagnosed ''no such option'']
                [''extra''] ())) = [''no such option'']"
proof -
  let ?options = "[Returned (CHR ''i'') ''1'', Diagnosed ''no such option'']"
  let ?w = "snd (main initialized ?options [''extra''] ())"
  have "Diagnosed ''no such option'' \<in> set ?options"
    by simp
  from unknown_option_prints_usage [OF this, of initialized "[''extra'']" "()"]
  have "fst (main initialized ?options [''extra''] ()) = Exit 0"
    "trace ?w = []"
    "\<forall>before later.
       ?options = before @ Diagnosed ''no such option'' # later \<and>
       (\<forall>g\<in>set before. case g of
          Returned c x \<Rightarrow> c \<noteq> CHR ''h'' \<and> c \<noteq> CHR ''?'' | Diagnosed m \<Rightarrow> False) \<longrightarrow>
       cerr ?w = [''no such option'']"
    by blast+
  from this(1,2) this(3) [rule_format, of "[Returned (CHR ''i'') ''1'']" "[]"]
  show ?thesis
    by simp
qed

text \<open>
  Claim C9, as far as it says that the behaviour is that of \<^verbatim>\<open>--help\<close> and that no
  error is reported, fails: for the command line \<^verbatim>\<open>--bogus\<close> standard error holds the
  diagnostic of \<^verbatim>\<open>getopt_long\<close>, for \<^verbatim>\<open>--help\<close> it is empty, so the two runs differ.
\<close>

theorem unknown_option_is_reported:
  "cerr (snd (main initialized
      [Diagnosed (''sqlite3_spatialite_app: unrecognized option '' @ [CHR 0x27] @ ''--bogus'' @
         [CHR 0x27])] [] ())) =
     [''sqlite3_spatialite_app: unrecognized option '' @ [CHR 0x27] @ ''--bogus'' @ [CHR 0x27]] \<and>
   cerr (snd (main initialized [Returned (CHR ''h'') []] [] ())) = [] \<and>
   main initialized
      [Diagnosed (''sqlite3_spatialite_app: unrecognized option '' @ [CHR 0x27] @ ''--bogus'' @
         [CHR 0x27])] [] () \<noteq>
   main initialized [Returned (CHR ''h'') []] [] ()"
  by (simp add: main_def parse_args_def show_usage_def print_out_def print_err_def start_def)

section \<open>The metadata bootstrap\<close>

lemma existing_table_example_1:
  assumes run: "run_example_1 eng name (start s) = (e, w)"
    and row: "(sqlite3_step check_sql, (SQLITE_ROW, txt)) \<in> set (trace w)"
  shows "sqlite3_exec init_sql \<notin> set (calls w) \<and>
         sqlite3_exec (create_table_sql ''points'') \<in> set (calls w)"
proof -
  note facts = row show_versions_world [of eng "start s"]
  from run show ?thesis
  proof (cases rule: run_example_1_cases)
    case open_failed
    with facts show ?thesis
      by (auto simp: calls_def start_def dest!: block_traces)
  next
    case (bootstrap_failed w1)
    with facts show ?thesis
      by (auto simp: calls_def start_def dest!: block_traces)
  next
    case (create_failed w1 w2)
    with facts show ?thesis
      by (auto simp: calls_def start_def dest!: block_traces)
  next
    case (geometry_failed w1 w2 w3)
    with facts show ?thesis
      by (auto simp: calls_def start_def dest!: block_traces)
  next
    case (begin_failed w1 w2 w3 w4)
    with facts show ?thesis
      by (auto simp: calls_def start_def dest!: block_traces)
  next
    case (insert_failed w1 w2 w3 w4 w5)
    with facts show ?thesis
      by (auto simp: calls_def start_def dest!: block_traces)
  next
    case (commit_failed w1 w2 w3 w4 w5 w6)
    with facts show ?thesis
      by (auto simp: calls_def start_def dest!: block_traces)
  next
    case (finished w1 w2 w3 w4 w5 w6 w7)
    with facts show ?thesis
      by (auto simp: calls_def start_def dest!: block_traces)
  qed
qed

lemma existing_table_example_2:
  assumes run: "run_example_2 eng name (start s) = (e, w)"
    and row: "(sqlite3_step check_sql, (SQLITE_ROW, txt)) \<in> set (trace w)"
  shows "sqlite3_exec init_sql \<notin> set (calls w) \<and>
         sqlite3_exec (import_sql ''../shp/BR_UF_2022'' ''location'') \<in> set (calls w)"
  using run
proof (cases rule: run_example_2_cases)
  case open_failed
  with row show ?thesis
    by (auto simp: calls_def start_def dest!: block_traces)
next
  case (bootstrap_failed w1)
  with row show ?thesis
    by (auto simp: calls_def start_def dest!: block_traces)
next
  case (import_failed w1 w2)
  with row show ?thesis
    by (auto simp: calls_def start_def dest!: block_traces)
next
  case (query_failed w1 w2 w3)
  from query_failed(1-3) have before:
    "(sqlite3_step check_sql, (SQLITE_ROW, txt)) \<in> set (trace w3) \<longrightarrow>
       sqlite3_exec init_sql \<notin> set (calls w3)"
    "sqlite3_exec (import_sql ''../shp/BR_UF_2022'' ''location'') \<in> set (calls w3)"
    by (auto simp: calls_def start_def dest!: block_traces)
  from query_failed(4) have
    "\<exists>ext. trace w = trace w3 @ ext \<and> (\<forall>(c, r) \<in> set ext. c \<noteq> sqlite3_exec init_sql \<and> c \<noteq> sqlite3_step check_sql)"
    by (cases rule: query_places_2_Some) (auto simp: in_round_trace aborted_def)
  with before row show ?thesis
    by (fastforce simp: calls_def)
next
  case (finished w1 w2 w3 w4)
  from finished(1-3) have before:
    "(sqlite3_step check_sql, (SQLITE_ROW, txt)) \<in> set (trace w3) \<longrightarrow>
       sqlite3_exec init_sql \<notin> set (calls w3)"
    "sqlite3_exec (import_sql ''../shp/BR_UF_2022'' ''location'') \<in> set (calls w3)"
    by (auto simp: calls_def start_def dest!: block_traces)
  from finished(4) have
    "\<exists>ext. trace w4 = trace w3 @ ext \<and> (\<forall>(c, r) \<in> set ext. c \<noteq> sqlite3_exec init_sql \<and> c \<noteq> sqlite3_step check_sql)"
    by (elim query_places_2_None) (auto simp: in_round_trace)
  moreover from finished(5) have
    "\<exists>ext. trace w = trace w4 @ ext \<and> (\<forall>(c, r) \<in> set ext. c \<noteq> sqlite3_exec init_sql \<and> c \<noteq> sqlite3_step check_sql)"
    by (auto dest!: finish_world)
  ultimately show ?thesis
    using before row by (fastforce simp: calls_def)
qed

text \<open>
  Claim C4. The program sees that the reference-systems table exists when the step of its
  check query returns \<^verbatim>\<open>SQLITE_ROW\<close>. In every run of either runner in which it does,
  whatever else the engine answers, \<^verbatim>\<open>InitSpatialMetaData\<close> is never executed, and the
  bootstrap does not end the run: the statement after it (the table creation of example 1,
  the shapefile import of example 2) is executed. A second run against an initialized
  database therefore issues no second initialization.
\<close>

theorem bootstrap_skips_initialization:
  "(run_example_1 eng name (start s) = (e, w) \<and>
      (sqlite3_step check_sql, (SQLITE_ROW, txt)) \<in> set (trace w) \<longrightarrow>
      sqlite3_exec init_sql \<notin> set (calls w) \<and>
      sqlite3_exec (create_table_sql ''points'') \<in> set (calls w)) \<and>
   (run_example_2 eng name (start s) = (e, w) \<and>
      (sqlite3_step check_sql, (SQLITE_ROW, txt)) \<in> set (trace w) \<longrightarrow>
      sqlite3_exec init_sql \<notin> set (calls w) \<and>
      sqlite3_exec (import_sql ''../shp/BR_UF_2022'' ''location'') \<in> set (calls w))"
proof (rule conjI)
  show "run_example_1 eng name (start s) = (e, w) \<and>
      (sqlite3_step check_sql, (SQLITE_ROW, txt)) \<in> set (trace w) \<longrightarrow>
      sqlite3_exec init_sql \<notin> set (calls w) \<and>
      sqlite3_exec (create_table_sql ''points'') \<in> set (calls w)"
    by (rule impI, erule conjE, erule (1) existing_table_example_1)
  show "run_example_2 eng name (start s) = (e, w) \<and>
      (sqlite3_step check_sql, (SQLITE_ROW, txt)) \<in> set (trace w) \<longrightarrow>
      sqlite3_exec init_sql \<notin> set (calls w) \<and>
      sqlite3_exec (import_sql ''../shp/BR_UF_2022'' ''location'') \<in> set (calls w)"
    by (rule impI, erule conjE, erule (1) existing_table_example_2)
qed

theorem bootstrap_skips_initialization_witness:
  "sqlite3_exec init_sql \<notin> set (calls (snd (run_example_1 initialized ''x.db'' (start ())))) \<and>
   sqlite3_exec (create_table_sql ''points'')
     \<in> set (calls (snd (run_example_1 initialized ''x.db'' (start ())))) \<and>
   sqlite3_exec init_sql \<notin> set (calls (snd (run_example_2 initialized ''x.db'' (start ())))) \<and>
   sqlite3_exec (import_sql ''../shp/BR_UF_2022'' ''location'')
     \<in> set (calls (snd (run_example_2 initialized ''x.db'' (start ()))))"
proof -
  let ?r1 = "run_example_1 initialized ''x.db'' (start ())"
  let ?r2 = "run_example_2 initialized ''x.db'' (start ())"
  have "?r1 = (fst ?r1, snd ?r1) \<and> (sqlite3_step check_sql, (SQLITE_ROW, [])) \<in> set (trace (snd ?r1))"
    by (simp add: initialized_run_1 SQLITE_ROW_def)
  from bootstrap_skips_initialization [THEN conjunct1, THEN mp, OF this]
  have one: "sqlite3_exec init_sql \<notin> set (calls (snd ?r1)) \<and>
      sqlite3_exec (create_table_sql ''points'') \<in> set (calls (snd ?r1))" .
  have "?r2 = (fst ?r2, snd ?r2) \<and> (sqlite3_step check_sql, (SQLITE_ROW, [])) \<in> set (trace (snd ?r2))"
    using initialized_trace_2 by simp
  from bootstrap_skips_initialization [THEN conjunct2, THEN mp, OF this]
  have two: "sqlite3_exec init_sql \<notin> set (calls (snd ?r2)) \<and>
      sqlite3_exec (import_sql ''../shp/BR_UF_2022'' ''location'') \<in> set (calls (snd ?r2))" .
  from one two show ?thesis
    by (intro conjI) (erule conjunct1 conjunct2)+
qed

section \<open>Example 1\<close>

subsection \<open>The rows a run adds to the table\<close>

lemma follows_start: "follows rows s (start s)"
  by (simp add: follows_def start_def)

lemma follows_print [simp]:
  "follows rows s (print_out l w) = follows rows s w"
  "follows rows s (print_err l w) = follows rows s w"
  by (simp_all add: follows_def print_out_def print_err_def)

lemma follows_invoke [simp]:
  "keeps_table rows eng \<Longrightarrow> follows rows s (snd (invoke eng c w)) = follows rows s w"
  by (simp add: follows_def invoke_def keeps_table_def split_def Let_def)

lemma follows_invoke_void [simp]:
  "keeps_table rows eng \<Longrightarrow> follows rows s (invoke_void eng c w) = follows rows s w"
  by (simp add: invoke_void_def)

lemma follows_handle_error [simp]:
  "keeps_table rows eng \<Longrightarrow> follows rows s (handle_error eng m w) = follows rows s w"
  by (simp add: handle_error_def Let_def)

lemma follows_show_versions [simp]:
  "keeps_table rows eng \<Longrightarrow> follows rows s (show_versions eng w) = follows rows s w"
  by (simp add: show_versions_def split_def Let_def)

lemma follows_open_database:
  assumes "keeps_table rows eng" and "open_database eng name w = (r, w')"
  shows "follows rows s w' = follows rows s w"
proof -
  from assms(1) have "follows rows s (snd (open_database eng name w)) = follows rows s w"
    by (simp add: open_database_def split_def Let_def)
  then show ?thesis
    by (simp add: assms(2))
qed

lemma follows_exec_or_fail:
  assumes "keeps_table rows eng" and "exec_or_fail eng sql label w = (r, w')"
  shows "follows rows s w' = follows rows s w"
proof -
  from assms(1) have "follows rows s (snd (exec_or_fail eng sql label w)) = follows rows s w"
    by (simp add: exec_or_fail_def split_def Let_def)
  then show ?thesis
    by (simp add: assms(2))
qed

lemma follows_spatial_metadata_exists:
  assumes "keeps_table rows eng" and "spatial_metadata_exists eng w = (r, w')"
  shows "follows rows s w' = follows rows s w"
proof -
  from assms(1) have
    "follows rows s (snd (spatial_metadata_exists eng w)) = follows rows s w"
    by (simp add: spatial_metadata_exists_def split_def Let_def)
  then show ?thesis
    by (simp add: assms(2))
qed

lemma follows_bootstrap:
  assumes "keeps_table rows eng" and "bootstrap eng w = (r, w')"
  shows "follows rows s w' = follows rows s w"
proof (cases "spatial_metadata_exists eng w")
  case (Pair x w1)
  note w1 = follows_spatial_metadata_exists [OF assms(1) Pair, of s]
  show ?thesis
  proof (cases x)
    case (Inl what)
    with assms(2) Pair w1 show ?thesis
      by (simp add: bootstrap_def)
  next
    case (Inr exists)
    with assms Pair w1 show ?thesis
      by (auto simp: bootstrap_def dest: follows_exec_or_fail [where s = s] split: if_splits)
  qed
qed

lemma follows_insert_places:
  assumes "keeps_table rows eng" and "insert_places eng t ps w = (r, w')"
  shows "follows rows s w' = follows rows s w"
proof -
  have "follows rows s (snd (insert_places eng t ps w)) = follows rows s w"
  proof (induction ps arbitrary: w)
    case Nil
    then show ?case
      by simp
  next
    case (Cons p ps)
    let ?w = "print_out (''Adding '' @ fst p @ '': '' @ snd p) w"
    let ?i = "invoke eng (sqlite3_exec (insert_sql t (snd p))) ?w"
    from assms(1) have "follows rows s (snd ?i) = follows rows s w"
      by simp
    with Cons assms(1) show ?case
      by (simp add: split_def)
  qed
  then show ?thesis
    by (simp add: assms(2))
qed

lemma follows_finish:
  assumes "keeps_table rows eng" and "finish eng l w = (r, w')"
  shows "follows rows s w' = follows rows s w"
proof -
  from assms(1) have "follows rows s (snd (finish eng l w)) = follows rows s w"
    by (simp add: finish_def split_def Let_def)
  then show ?thesis
    by (simp add: assms(2))
qed

lemma follows_run_example_1:
  assumes keeps: "keeps_table rows eng"
    and run: "run_example_1 eng name (start s) = (e, w)"
  shows "rows (engine_state w) = rows s @ concat (map (\<lambda>(c, r). added_rows c r) (trace w))"
proof -
  note opened = follows_open_database [OF keeps, where s = s]
    and booted = follows_bootstrap [OF keeps, where s = s]
    and ran = follows_exec_or_fail [OF keeps, where s = s]
    and looped = follows_insert_places [OF keeps, where s = s]
    and closed = follows_finish [OF keeps, where s = s]
  have start: "follows rows s (show_versions eng (start s))"
    using keeps by (simp add: follows_start)
  from run have "follows rows s w"
  proof (cases rule: run_example_1_cases)
    case open_failed
    from opened [OF this] start show ?thesis
      by simp
  next
    case (bootstrap_failed w1)
    from opened [OF this(1)] booted [OF this(2)] start show ?thesis
      by simp
  next
    case (create_failed w1 w2)
    from opened [OF this(1)] booted [OF this(2)] ran [OF this(3)] start show ?thesis
      by simp
  next
    case (geometry_failed w1 w2 w3)
    from opened [OF this(1)] booted [OF this(2)] ran [OF this(3)] ran [OF this(4)] start
    show ?thesis
      by simp
  next
    case (begin_failed w1 w2 w3 w4)
    from opened [OF this(1)] booted [OF this(2)] ran [OF this(3)] ran [OF this(4)]
      ran [OF this(5)] start
    show ?thesis
      by simp
  next
    case (insert_failed w1 w2 w3 w4 w5)
    from opened [OF this(1)] booted [OF this(2)] ran [OF this(3)] ran [OF this(4)]
      ran [OF this(5)] looped [OF this(6)] start
    show ?thesis
      by simp
  next
    case (commit_failed w1 w2 w3 w4 w5 w6)
    from opened [OF this(1)] booted [OF this(2)] ran [OF this(3)] ran [OF this(4)]
      ran [OF this(5)] looped [OF this(6)] ran [OF this(7)] start
    show ?thesis
      by simp
  next
    case (finished w1 w2 w3 w4 w5 w6 w7)
    from opened [OF this(1)] booted [OF this(2)] ran [OF this(3)] ran [OF this(4)]
      ran [OF this(5)] looped [OF this(6)] ran [OF this(7)] closed [OF this(8)] start
    show ?thesis
      by simp
  qed
  then show ?thesis
    by (simp add: follows_def)
qed

lemma added_rows_executed:
  assumes "\<forall>sql rc m. (sqlite3_exec sql, (rc, m)) \<in> set tr \<longrightarrow> rc = SQLITE_OK"
  shows "concat (map (\<lambda>(c, r). added_rows c r) tr) =
           concat (map inserted_row (concat (map exec_sql (map fst tr))))"
  using assms
proof (induction tr)
  case Nil
  then show ?case
    by simp
next
  case (Cons x tr)
  obtain c rc m where x: "x = (c, (rc, m))"
    by (cases x) auto
  from Cons.prems have "\<forall>sql rc m. (sqlite3_exec sql, (rc, m)) \<in> set tr \<longrightarrow> rc = SQLITE_OK"
    by auto
  from Cons.IH [OF this] have "concat (map (\<lambda>(c, r). added_rows c r) tr) =
           concat (map inserted_row (concat (map exec_sql (map fst tr))))" .
  moreover from Cons.prems x have "added_rows c (rc, m) = concat (map inserted_row (exec_sql c))"
    by (cases c) (auto simp: added_rows_def)
  ultimately show ?case
    by (simp add: x)
qed

lemma keeps_rows_table: "keeps_table (\<lambda>rows. rows) keeps_rows"
  unfolding keeps_table_def
proof (intro allI)
  fix c s
  show "snd (keeps_rows c s) = s @ added_rows c (fst (keeps_rows c s))"
    by (cases c) (simp_all add: keeps_rows_def added_rows_def)
qed

lemmas sql_defs =
  init_sql_def create_table_sql_def add_geometry_sql_def begin_sql_def insert_sql_def
  commit_sql_def

lemma keeps_rows_run_1:
  "fst (run_example_1 keeps_rows ''places.db'' (start [])) = Return 0"
  by (simp add: run_defs sql_defs keeps_rows_def inserted_row_def
      cong: prod.case_cong_weak let_weak_cong)

subsection \<open>The three inserts\<close>

text \<open>
  Claim C6. A run of example 1 that returns 0 has executed, in this order and all with
  status \<^verbatim>\<open>SQLITE_OK\<close>: the metadata initialization (only when the table was missing),
  the table creation, the registration of the geometry column, \<^verbatim>\<open>BEGIN TRANSACTION;\<close>,
  one insert per place of the list, in list order, each giving column \<open>geom\<close> the place's
  point under SRID 4326 and nothing else, and \<^verbatim>\<open>COMMIT\<close>; nothing else is executed. On
  every engine that keeps the table, the rows after the run are the rows before it
  followed by the three new ones, in list order. The names of the places are in no
  statement: they are in the three "Adding" lines of the output, which ends with these,
  the commit line and the final line.
\<close>

theorem example_1_inserts_three_points:
  assumes run: "run_example_1 eng name (start s) = (Return 0, w)"
  shows "(executed w =
            [''CREATE TABLE IF NOT EXISTS points (id INTEGER PRIMARY KEY AUTOINCREMENT NOT NULL)'',
             ''SELECT AddGeometryColumn('points', 'geom', 4326, 'POINT', 'XY')'',
             ''BEGIN TRANSACTION;'',
             ''INSERT INTO points (geom) VALUES (GeomFromText('POINT(-43.1729 -22.9068)', 4326))'',
             ''INSERT INTO points (geom) VALUES (GeomFromText('POINT(-54.5854 -25.5165)', 4326))'',
             ''INSERT INTO points (geom) VALUES (GeomFromText('POINT(-32.423786 -3.853808)', 4326))'',
             ''COMMIT''] \<or>
          executed w =
            [''SELECT InitSpatialMetaData(1);'',
             ''CREATE TABLE IF NOT EXISTS points (id INTEGER PRIMARY KEY AUTOINCREMENT NOT NULL)'',
             ''SELECT AddGeometryColumn('points', 'geom', 4326, 'POINT', 'XY')'',
             ''BEGIN TRANSACTION;'',
             ''INSERT INTO points (geom) VALUES (GeomFromText('POINT(-43.1729 -22.9068)', 4326))'',
             ''INSERT INTO points (geom) VALUES (GeomFromText('POINT(-54.5854 -25.5165)', 4326))'',
             ''INSERT INTO points (geom) VALUES (GeomFromText('POINT(-32.423786 -3.853808)', 4326))'',
             ''COMMIT'']) \<and>
         (\<forall>sql rc m. (sqlite3_exec sql, (rc, m)) \<in> set (trace w) \<longrightarrow> rc = SQLITE_OK) \<and>
         (\<forall>rows. keeps_table rows eng \<longrightarrow>
            rows (engine_state w) =
              rows s @
              [''GeomFromText('POINT(-43.1729 -22.9068)', 4326)'',
               ''GeomFromText('POINT(-54.5854 -25.5165)', 4326)'',
               ''GeomFromText('POINT(-32.423786 -3.853808)', 4326)'']) \<and>
         (\<exists>before. cout w = before @
            [''Adding Rio de Janeiro: POINT(-43.1729 -22.9068)'',
             ''Adding Foz do Iguacu: POINT(-54.5854 -25.5165)'',
             ''Adding Fernando de Noronha: POINT(-32.423786 -3.853808)'',
             ''Committing transaction...'', ''Example 1 Done.''])"
  using run
proof (cases rule: run_example_1_cases)
  case (finished w1 w2 w3 w4 w5 w6 w7)
  from finished(6-8) have "cout w = cout w5 @ map adding places_1 @
      [''Committing transaction...'', ''Example 1 Done.'']"
    by (auto dest!: insert_places_cout exec_or_fail_cout finish_cout)
  then have out: "\<exists>before. cout w = before @
            [''Adding Rio de Janeiro: POINT(-43.1729 -22.9068)'',
             ''Adding Foz do Iguacu: POINT(-54.5854 -25.5165)'',
             ''Adding Fernando de Noronha: POINT(-32.423786 -3.853808)'',
             ''Committing transaction...'', ''Example 1 Done.'']"
    by (simp add: places_1_def adding_def)
  from finished show_versions_world [of eng "start s"] have stmts:
    "(executed w =
            [create_table_sql ''points'', add_geometry_sql ''points'', begin_sql,
             insert_sql ''points'' ''POINT(-43.1729 -22.9068)'',
             insert_sql ''points'' ''POINT(-54.5854 -25.5165)'',
             insert_sql ''points'' ''POINT(-32.423786 -3.853808)'', commit_sql] \<or>
          executed w =
            [init_sql, create_table_sql ''points'', add_geometry_sql ''points'', begin_sql,
             insert_sql ''points'' ''POINT(-43.1729 -22.9068)'',
             insert_sql ''points'' ''POINT(-54.5854 -25.5165)'',
             insert_sql ''points'' ''POINT(-32.423786 -3.853808)'', commit_sql])"
    and ok: "\<forall>sql rc m. (sqlite3_exec sql, (rc, m)) \<in> set (trace w) \<longrightarrow> rc = SQLITE_OK"
    by (auto simp: executed_def calls_def start_def dest!: block_traces)
  have added: "concat (map inserted_row (executed w)) =
      [''GeomFromText('POINT(-43.1729 -22.9068)', 4326)'',
       ''GeomFromText('POINT(-54.5854 -25.5165)', 4326)'',
       ''GeomFromText('POINT(-32.423786 -3.853808)', 4326)'']"
    using stmts by (elim disjE) (simp_all add: sql_defs inserted_row_def)
  have table: "rows (engine_state w) =
      rows s @
      [''GeomFromText('POINT(-43.1729 -22.9068)', 4326)'',
       ''GeomFromText('POINT(-54.5854 -25.5165)', 4326)'',
       ''GeomFromText('POINT(-32.423786 -3.853808)', 4326)'']"
    if "keeps_table rows eng" for rows
    using follows_run_example_1 [OF that run] added_rows_executed [OF ok] added
    by (simp add: executed_def calls_def)
  show ?thesis
  proof (intro conjI allI impI)
    show "executed w =
            [''CREATE TABLE IF NOT EXISTS points (id INTEGER PRIMARY KEY AUTOINCREMENT NOT NULL)'',
             ''SELECT AddGeometryColumn('points', 'geom', 4326, 'POINT', 'XY')'',
             ''BEGIN TRANSACTION;'',
             ''INSERT INTO points (geom) VALUES (GeomFromText('POINT(-43.1729 -22.9068)', 4326))'',
             ''INSERT INTO points (geom) VALUES (GeomFromText('POINT(-54.5854 -25.5165)', 4326))'',
             ''INSERT INTO points (geom) VALUES (GeomFromText('POINT(-32.423786 -3.853808)', 4326))'',
             ''COMMIT''] \<or>
          executed w =
            [''SELECT InitSpatialMetaData(1);'',
             ''CREATE TABLE IF NOT EXISTS points (id INTEGER PRIMARY KEY AUTOINCREMENT NOT NULL)'',
             ''SELECT AddGeometryColumn('points', 'geom', 4326, 'POINT', 'XY')'',
             ''BEGIN TRANSACTION;'',
             ''INSERT INTO points (geom) VALUES (GeomFromText('POINT(-43.1729 -22.9068)', 4326))'',
             ''INSERT INTO points (geom) VALUES (GeomFromText('POINT(-54.5854 -25.5165)', 4326))'',
             ''INSERT INTO points (geom) VALUES (GeomFromText('POINT(-32.423786 -3.853808)', 4326))'',
             ''COMMIT'']"
      using stmts by (elim disjE) (simp_all add: sql_defs)
    show "rc = SQLITE_OK" if "(sqlite3_exec sql, (rc, m)) \<in> set (trace w)" for sql rc m
      using ok that by blast
    show "rows (engine_state w) =
      rows s @
      [''GeomFromText('POINT(-43.1729 -22.9068)', 4326)'',
       ''GeomFromText('POINT(-54.5854 -25.5165)', 4326)'',
       ''GeomFromText('POINT(-32.423786 -3.853808)', 4326)'']"
      if "keeps_table rows eng" for rows
      using that by (rule table)
    show "\<exists>before. cout w = before @
            [''Adding Rio de Janeiro: POINT(-43.1729 -22.9068)'',
             ''Adding Foz do Iguacu: POINT(-54.5854 -25.5165)'',
             ''Adding Fernando de Noronha: POINT(-32.423786 -3.853808)'',
             ''Committing transaction...'', ''Example 1 Done.'']"
      by (rule out)
  qed
qed (auto dest!: block_traces)

theorem example_1_inserts_three_points_witness:
  "engine_state (snd (run_example_1 keeps_rows ''places.db'' (start []))) =
     [''GeomFromText('POINT(-43.1729 -22.9068)', 4326)'',
      ''GeomFromText('POINT(-54.5854 -25.5165)', 4326)'',
      ''GeomFromText('POINT(-32.423786 -3.853808)', 4326)''] \<and>
   (\<exists>before. cout (snd (run_example_1 keeps_rows ''places.db'' (start []))) = before @
      [''Adding Rio de Janeiro: POINT(-43.1729 -22.9068)'',
       ''Adding Foz do Iguacu: POINT(-54.5854 -25.5165)'',
       ''Adding Fernando de Noronha: POINT(-32.423786 -3.853808)'',
       ''Committing transaction...'', ''Example 1 Done.''])"
proof -
  let ?r = "run_example_1 keeps_rows ''places.db'' (start [])"
  have "?r = (Return 0, snd ?r)"
    using keeps_rows_run_1 by (simp add: prod_eq_iff)
  note run = example_1_inserts_three_points [OF this]
  from run [THEN conjunct2, THEN conjunct2, THEN conjunct1, rule_format, OF keeps_rows_table]
    run [THEN conjunct2, THEN conjunct2, THEN conjunct2]
  show ?thesis
    by simp
qed

text \<open>
  Claim C6, as far as it says that the table holds exactly the three locations after
  every successful run, fails. The program creates the table only if it is missing and
  never empties it: on the database a first run has left, with its three rows, a second
  run returns 0 too, and leaves six rows. A row holds a geometry and no name.
\<close>

theorem second_run_leaves_six_rows:
  "fst (run_example_1 keeps_rows ''places.db''
         (start [''GeomFromText('POINT(-43.1729 -22.9068)', 4326)'',
                 ''GeomFromText('POINT(-54.5854 -25.5165)', 4326)'',
                 ''GeomFromText('POINT(-32.423786 -3.853808)', 4326)''])) = Return 0 \<and>
   engine_state (snd (run_example_1 keeps_rows ''places.db''
         (start [''GeomFromText('POINT(-43.1729 -22.9068)', 4326)'',
                 ''GeomFromText('POINT(-54.5854 -25.5165)', 4326)'',
                 ''GeomFromText('POINT(-32.423786 -3.853808)', 4326)'']))) =
     [''GeomFromText('POINT(-43.1729 -22.9068)', 4326)'',
      ''GeomFromText('POINT(-54.5854 -25.5165)', 4326)'',
      ''GeomFromText('POINT(-32.423786 -3.853808)', 4326)'',
      ''GeomFromText('POINT(-43.1729 -22.9068)', 4326)'',
      ''GeomFromText('POINT(-54.5854 -25.5165)', 4326)'',
      ''GeomFromText('POINT(-32.423786 -3.853808)', 4326)'']"
  by (simp add: run_defs sql_defs keeps_rows_def inserted_row_def
      cong: prod.case_cong_weak let_weak_cong)

subsection \<open>A failed insert\<close>

text \<open>
  Claim C7. If in a run of example 1 an insert is answered with a status other than
  \<^verbatim>\<open>SQLITE_OK\<close>, the run returns 1, and that insert is the last statement it executes:
  the calls that follow are those of \<open>handle_error\<close> (free the message, close the handle,
  release the cache, shut down). Neither \<^verbatim>\<open>COMMIT\<close> nor \<^verbatim>\<open>ROLLBACK\<close> is executed at
  any point of the run: every statement executed is the metadata initialization, the
  table creation, the geometry column registration, \<^verbatim>\<open>BEGIN TRANSACTION\<close> or one of
  the three inserts.
\<close>

theorem failed_insert_leaves_transaction_uncommitted:
  assumes run: "run_example_1 eng name (start s) = (e, w)"
    and failed: "(sqlite3_exec (insert_sql ''points'' wkt), (rc, msg)) \<in> set (trace w)"
      "rc \<noteq> SQLITE_OK"
  shows "e = Return 1 \<and> commit_sql \<notin> set (executed w) \<and>
         ''ROLLBACK'' \<notin> set (executed w) \<and>
         set (executed w) \<subseteq>
           {init_sql, create_table_sql ''points'', add_geometry_sql ''points'', begin_sql,
            insert_sql ''points'' ''POINT(-43.1729 -22.9068)'',
            insert_sql ''points'' ''POINT(-54.5854 -25.5165)'',
            insert_sql ''points'' ''POINT(-32.423786 -3.853808)''} \<and>
         (\<exists>before. calls w = before @
            [sqlite3_exec (insert_sql ''points'' wkt), sqlite3_free, sqlite3_close,
             spatialite_cleanup_ex, spatialite_shutdown])"
proof -
  note facts = failed show_versions_world [of eng "start s"]
  from run show ?thesis
  proof (cases rule: run_example_1_cases)
    case open_failed
    with facts show ?thesis
      by (auto simp: start_def dest!: block_traces)
  next
    case (bootstrap_failed w1)
    with facts show ?thesis
      by (auto simp: start_def dest!: block_traces)
  next
    case (create_failed w1 w2)
    with facts show ?thesis
      by (auto simp: start_def dest!: block_traces)
  next
    case (geometry_failed w1 w2 w3)
    with facts show ?thesis
      by (auto simp: start_def dest!: block_traces)
  next
    case (begin_failed w1 w2 w3 w4)
    with facts show ?thesis
      by (auto simp: start_def dest!: block_traces)
  next
    case (insert_failed w1 w2 w3 w4 w5)
    with facts show ?thesis
      by (auto simp: start_def executed_def calls_def dest!: block_traces)
  next
    case (commit_failed w1 w2 w3 w4 w5 w6)
    with facts show ?thesis
      by (auto simp: start_def dest!: block_traces)
  next
    case (finished w1 w2 w3 w4 w5 w6 w7)
    with facts show ?thesis
      by (auto simp: start_def dest!: block_traces)
  qed
qed

theorem failed_insert_leaves_transaction_uncommitted_witness:
  "fst (run_example_1 second_insert_fails ''x.db'' (start 0)) = Return 1 \<and>
   commit_sql \<notin> set (executed (snd (run_example_1 second_insert_fails ''x.db'' (start 0)))) \<and>
   ''ROLLBACK'' \<notin> set (executed (snd (run_example_1 second_insert_fails ''x.db'' (start 0))))"
proof -
  let ?r = "run_example_1 second_insert_fails ''x.db'' (start 0)"
  have run: "?r = (fst ?r, snd ?r)"
    by simp
  have "(sqlite3_exec (insert_sql ''points'' ''POINT(-54.5854 -25.5165)''), (19, ''constraint failed''))
          \<in> set (trace (snd ?r))"
    "(19::int) \<noteq> SQLITE_OK"
    by (simp_all add: second_insert_fails_run_1 SQLITE_OK_def)
  from failed_insert_leaves_transaction_uncommitted [OF run this] show ?thesis
    by (elim conjE) (intro conjI; assumption)
qed

section \<open>Example 2\<close>



text \<open>
  Claim C10. If in a run of example 2 the step of the query of a place returns anything but
  \<^verbatim>\<open>SQLITE_ROW\<close> (an error status as well as \<^verbatim>\<open>SQLITE_DONE\<close>), the program prints
  "Not found" for that place. If no prepare of a containment query fails in the run, the
  run steps the queries of all five places and returns 0; and a run that reaches a step and
  does not return 0 returns 1 after a prepare of a containment query has failed.
\<close>

theorem step_error_is_not_found:
  assumes run: "run_example_2 eng name (start s) = (e, w)"
    and place: "(place, wkt) \<in> set places_2"
    and step: "(sqlite3_step (within_sql ''location'' wkt), (rc, x)) \<in> set (trace w)"
      "rc \<noteq> SQLITE_ROW"
  shows "place @ '' ---> Not found'' \<in> set (cout w) \<and>
         ((\<forall>wkt' rc' m. (sqlite3_prepare_v2 (within_sql ''location'' wkt'), (rc', m)) \<in> set (trace w)
              \<longrightarrow> rc' = SQLITE_OK) \<longrightarrow>
            e = Return 0 \<and>
            (\<forall>p \<in> set places_2. sqlite3_step (within_sql ''location'' (snd p)) \<in> set (calls w))) \<and>
         (e \<noteq> Return 0 \<longrightarrow>
            e = Return 1 \<and>
            (\<exists>wkt' rc' m. (sqlite3_prepare_v2 (within_sql ''location'' wkt'), (rc', m)) \<in> set (trace w) \<and>
               rc' \<noteq> SQLITE_OK))"
  using run
proof (cases rule: run_example_2_cases)
  case open_failed
  with step(1) have False
    by (auto simp: start_def dest!: early_traces)
  then show ?thesis ..
next
  case (bootstrap_failed w1)
  with step(1) have False
    by (auto simp: start_def dest!: early_traces)
  then show ?thesis ..
next
  case (import_failed w1 w2)
  with step(1) have False
    by (auto simp: start_def dest!: early_traces)
  then show ?thesis ..
next
  case (query_failed w1 w2 w3)
  note pre = before_queries [OF query_failed(1-3)]
  from query_places_Some [OF query_failed(4)] obtain pre p rest rs rc' m c msg r1 r2 r3 where
    *: "e = Return 1" "places_2 = pre @ p # rest" "length rs = length pre" "rc' \<noteq> SQLITE_OK"
      "trace w = trace w3 @ concat (map2 (round_trace ''location'') pre rs) @
         [(sqlite3_prepare_v2 (within_sql ''location'' (snd p)), (rc', m)), (sqlite3_errmsg, (c, msg)),
          (sqlite3_close, r1), (spatialite_cleanup_ex, r2), (spatialite_shutdown, r3)]"
      "cout w = cout w3 @
         ''Checking what are the correspoding State names for the following points:'' #
         map2 round_line pre rs"
    by auto
  from step(1) pre *(5) have
    "(sqlite3_step (within_sql ''location'' wkt), (rc, x))
       \<in> set (concat (map2 (round_trace ''location'') pre rs))"
    by simp
  from rounds_not_found [OF *(3) this step(2)] obtain place' where
    found: "(place', wkt) \<in> set pre" "place' @ '' ---> Not found'' \<in> set (map2 round_line pre rs)"
    by blast
  from found(1) have "(place', wkt) \<in> set places_2"
    unfolding *(2) by simp
  from this place have "place' = place"
    by (rule places_2_functional)
  with found(2) *(6) have line: "place @ '' ---> Not found'' \<in> set (cout w)"
    by simp
  from *(5) have failed:
    "(sqlite3_prepare_v2 (within_sql ''location'' (snd p)), (rc', m)) \<in> set (trace w)"
    by simp
  show ?thesis
  proof (intro conjI impI)
    show "place @ '' ---> Not found'' \<in> set (cout w)"
      by (rule line)
    show "e = Return 1"
      by (rule *(1))
    show "\<exists>wkt' rc' m. (sqlite3_prepare_v2 (within_sql ''location'' wkt'), (rc', m)) \<in> set (trace w) \<and>
               rc' \<noteq> SQLITE_OK"
      using failed *(4) by (intro exI [of _ "snd p"] exI [of _ rc'] exI [of _ m] conjI)
  next
    assume "\<forall>wkt' rc' m. (sqlite3_prepare_v2 (within_sql ''location'' wkt'), (rc', m)) \<in> set (trace w)
              \<longrightarrow> rc' = SQLITE_OK"
    with failed *(4) have False
      by (elim allE [of _ "snd p"] allE [of _ rc'] allE [of _ m]) simp
    then show "e = Return 0"
      and "\<forall>p \<in> set places_2. sqlite3_step (within_sql ''location'' (snd p)) \<in> set (calls w)"
      by (rule FalseE)+
  qed
next
  case (finished w1 w2 w3 w4)
  note pre = before_queries [OF finished(1-3)]
  from finish_trace_frame [OF finished(5)] obtain ext where
    e: "e = Return 0" and ext: "trace w = trace w4 @ ext"
      "\<And>q r. (sqlite3_step q, r) \<notin> set ext"
    by blast
  from query_places_None [OF finished(4)] obtain rs where
    rs: "length rs = length places_2"
      "trace w4 = trace w3 @ concat (map2 (round_trace ''location'') places_2 rs)"
      "cout w4 = cout w3 @
         ''Checking what are the correspoding State names for the following points:'' #
         map2 round_line places_2 rs"
    by auto
  from finished(5) have out: "cout w = cout w4 @ [''Example 2 Done.'']"
    by (rule finish_cout)
  from step(1) pre ext rs(2) have
    "(sqlite3_step (within_sql ''location'' wkt), (rc, x))
       \<in> set (concat (map2 (round_trace ''location'') places_2 rs))"
    by simp
  from rounds_not_found [OF rs(1) this step(2)] obtain place' where
    found: "(place', wkt) \<in> set places_2"
      "place' @ '' ---> Not found'' \<in> set (map2 round_line places_2 rs)"
    by blast
  from found(1) place have "place' = place"
    by (rule places_2_functional)
  with found(2) rs(3) out have line: "place @ '' ---> Not found'' \<in> set (cout w)"
    by simp
  have steps: "sqlite3_step (within_sql ''location'' (snd p)) \<in> set (calls w)"
    if "p \<in> set places_2" for p
  proof -
    from rounds_step_all [OF rs(1) that, of "''location''"] obtain r where
      "(sqlite3_step (within_sql ''location'' (snd p)), r)
         \<in> set (concat (map2 (round_trace ''location'') places_2 rs))"
      by blast
    with ext(1) rs(2) have "(sqlite3_step (within_sql ''location'' (snd p)), r) \<in> set (trace w)"
      by simp
    then show ?thesis
      unfolding in_calls by (rule exI)
  qed
  show ?thesis
  proof (intro conjI impI ballI)
    show "place @ '' ---> Not found'' \<in> set (cout w)"
      by (rule line)
    show "e = Return 0"
      by (rule e)
    show "sqlite3_step (within_sql ''location'' (snd p)) \<in> set (calls w)"
      if "p \<in> set places_2" for p
      using that by (rule steps)
  next
    assume "e \<noteq> Return 0"
    with e show "e = Return 1"
      and "\<exists>wkt' rc' m. (sqlite3_prepare_v2 (within_sql ''location'' wkt'), (rc', m)) \<in> set (trace w) \<and>
               rc' \<noteq> SQLITE_OK"
      by simp_all
  qed
qed

theorem step_error_is_not_found_witness:
  "''Null Island ---> Not found'' \<in> set (cout (snd (run_example_2 brazil ''x.db'' (start ())))) \<and>
   fst (run_example_2 brazil ''x.db'' (start ())) = Return 0"
proof -
  let ?r = "run_example_2 brazil ''x.db'' (start ())"
  have run: "?r = (fst ?r, snd ?r)"
    by simp
  have "(''Null Island'', ''POINT(0 0)'') \<in> set places_2"
    "(sqlite3_step (within_sql ''location'' ''POINT(0 0)''), (101, [])) \<in> set (trace (snd ?r))"
    "(101::int) \<noteq> SQLITE_ROW"
    by (simp_all add: brazil_run_2 places_2_def SQLITE_ROW_def)
  from step_error_is_not_found [OF run this, THEN conjunct1] show ?thesis
    by (simp add: brazil_run_2)
qed

section \<open>The security relaxation\<close>

lemma parse_options_trace: "trace (snd (parse_options options a w)) = trace w"
proof (induction options arbitrary: a w)
  case Nil
  show ?case
    by simp
next
  case (Cons g later)
  then show ?case
    by (cases g) (simp_all add: show_usage_world)
qed

lemma parse_args_trace: "trace (snd (parse_args options positional a w)) = trace w"
  using parse_options_trace [of options a "print_out ''parsing arguments...'' w"]
  by (auto simp: parse_args_def split: prod.splits sum.splits list.splits)

lemma run_example_1_no_setenv:
  "filter is_setenv (calls (snd (run_example_1 eng name w))) = filter is_setenv (calls w)"
proof -
  obtain e w' where run: "run_example_1 eng name w = (e, w')"
    by force
  note facts = show_versions_world [of eng w]
  from run have "filter is_setenv (calls w') = filter is_setenv (calls w)"
  proof (cases rule: run_example_1_cases)
    case open_failed
    with facts show ?thesis
      by (auto simp: calls_def dest!: block_traces)
  next
    case (bootstrap_failed w1)
    with facts show ?thesis
      by (auto simp: calls_def dest!: block_traces)
  next
    case (create_failed w1 w2)
    with facts show ?thesis
      by (auto simp: calls_def dest!: block_traces)
  next
    case (geometry_failed w1 w2 w3)
    with facts show ?thesis
      by (auto simp: calls_def dest!: block_traces)
  next
    case (begin_failed w1 w2 w3 w4)
    with facts show ?thesis
      by (auto simp: calls_def dest!: block_traces)
  next
    case (insert_failed w1 w2 w3 w4 w5)
    with facts show ?thesis
      by (auto simp: calls_def dest!: block_traces)
  next
    case (commit_failed w1 w2 w3 w4 w5 w6)
    with facts show ?thesis
      by (auto simp: calls_def dest!: block_traces)
  next
    case (finished w1 w2 w3 w4 w5 w6 w7)
    with facts show ?thesis
      by (auto simp: calls_def dest!: block_traces)
  qed
  with run show ?thesis
    by simp
qed

lemma run_example_2_one_setenv:
  "\<exists>rest. calls (snd (run_example_2 eng name w)) =
      calls w @ setenv ''SPATIALITE_SECURITY'' ''relaxed'' # rest \<and> filter is_setenv rest = []"
proof -
  obtain e w' where run: "run_example_2 eng name w = (e, w')"
    by force
  let ?w0 = "invoke_void eng (setenv ''SPATIALITE_SECURITY'' ''relaxed'') w"
  have "\<exists>rest. calls w' = calls ?w0 @ rest \<and> filter is_setenv rest = []"
    using run
  proof (cases rule: run_example_2_cases)
    case open_failed
    then show ?thesis
      by (auto simp: calls_def dest!: block_traces)
  next
    case (bootstrap_failed w1)
    then show ?thesis
      by (auto simp: calls_def dest!: block_traces)
  next
    case (import_failed w1 w2)
    then show ?thesis
      by (auto simp: calls_def dest!: block_traces)
  next
    case (query_failed w1 w2 w3)
    from query_failed(1-3) have "\<exists>rest. calls w3 = calls ?w0 @ rest \<and> filter is_setenv rest = []"
      by (auto simp: calls_def dest!: block_traces)
    moreover from query_failed(4)
    have "\<exists>rest. calls w' = calls w3 @ rest \<and> filter is_setenv rest = []"
      by (cases rule: query_places_2_Some) (simp_all add: calls_def aborted_def)
    ultimately show ?thesis
      by auto
  next
    case (finished w1 w2 w3 w4)
    from finished(1-3) have "\<exists>rest. calls w3 = calls ?w0 @ rest \<and> filter is_setenv rest = []"
      by (auto simp: calls_def dest!: block_traces)
    moreover from finished(4)
    have "\<exists>rest. calls w4 = calls w3 @ rest \<and> filter is_setenv rest = []"
      by (elim query_places_2_None) (simp add: calls_def)
    moreover from finished(5)
    have "\<exists>rest. calls w' = calls w4 @ rest \<and> filter is_setenv rest = []"
      by (auto simp: calls_def dest!: block_traces)
    ultimately show ?thesis
      by auto
  qed
  with run show ?thesis
    by (auto simp: calls_def)
qed

text \<open>
  Claim C8. In every run of example 2 the first library call is
  \<^verbatim>\<open>setenv("SPATIALITE_SECURITY", "relaxed", 1)\<close>, before the database is opened and so
  before the import, and no later call of the run is a \<^verbatim>\<open>setenv\<close>. Example 1 never calls
  \<^verbatim>\<open>setenv\<close>, the argument parser makes no library call at all, and a whole run of the
  program calls \<^verbatim>\<open>setenv\<close> either never or exactly once, with these arguments.
\<close>

theorem security_relaxation_set_once:
  "(\<exists>rest. calls (snd (run_example_2 eng name (start s))) =
        setenv ''SPATIALITE_SECURITY'' ''relaxed'' # rest \<and> filter is_setenv rest = []) \<and>
   filter is_setenv (calls (snd (run_example_1 eng name (start s)))) = [] \<and>
   trace (snd (parse_args options positional a w)) = trace w \<and>
   (filter is_setenv (calls (snd (main eng options positional s))) = [] \<or>
    filter is_setenv (calls (snd (main eng options positional s))) =
      [setenv ''SPATIALITE_SECURITY'' ''relaxed''])"
proof (intro conjI)
  show "\<exists>rest. calls (snd (run_example_2 eng name (start s))) =
        setenv ''SPATIALITE_SECURITY'' ''relaxed'' # rest \<and> filter is_setenv rest = []"
    using run_example_2_one_setenv [of eng name "start s"] by (simp add: calls_def start_def)
  show "filter is_setenv (calls (snd (run_example_1 eng name (start s)))) = []"
    by (simp add: run_example_1_no_setenv) (simp add: calls_def start_def)
  show "trace (snd (parse_args options positional a w)) = trace w"
    by (rule parse_args_trace)
  show "filter is_setenv (calls (snd (main eng options positional s))) = [] \<or>
    filter is_setenv (calls (snd (main eng options positional s))) =
      [setenv ''SPATIALITE_SECURITY'' ''relaxed'']"
  proof -
    obtain r w0 where parsed: "parse_args options positional initial_args (start s) = (r, w0)"
      by force
    with parse_args_trace [of options positional initial_args "start s"]
    have empty: "calls w0 = []"
      by (simp add: calls_def start_def)
    show ?thesis
    proof (cases r)
      case (Inl code)
      with parsed empty show ?thesis
        by (simp add: main_def)
    next
      case (Inr parsed_args)
      obtain name w1 where chosen: "(if in_memory_db parsed_args
            then ('':memory:'', print_out ''Using in-memory database'' w0)
            else (db_name parsed_args, w0)) = (name, w1)"
        by force
      with empty have w1: "calls w1 = []"
        by (auto simp: calls_def split: if_splits)
      from run_example_2_one_setenv [of eng name "print_out ''Running example 2...'' w1"] w1
      have two: "filter is_setenv
          (calls (snd (run_example_2 eng name (print_out ''Running example 2...'' w1)))) =
          [setenv ''SPATIALITE_SECURITY'' ''relaxed'']"
        by (auto simp: calls_def)
      from run_example_1_no_setenv [of eng name "print_out ''Running example 1...'' w1"] w1
      have one: "filter is_setenv
          (calls (snd (run_example_1 eng name (print_out ''Running example 1...'' w1)))) = []"
        by (simp add: calls_def)
      from parsed Inr chosen one two w1 show ?thesis
        by (auto simp: main_def Let_def calls_def split: prod.splits)
    qed
  qed
qed

section \<open>A failing metadata check\<close>

lemma atoi_1: "atoi ''1'' = 1"
  by (simp add: atoi_def strtol_def LONG_MAX_def isspace_def isdigit_def)

text \<open>
  Claim C1. The program is run as \<^verbatim>\<open>--example-id 1 --db-name notes.txt\<close> on a file that
  is not a database. The open succeeds, the cache is allocated and attached, and the prepare
  of the existence check fails. \<open>spatial_metadata_exists\<close> prints the engine's message and
  throws; nothing catches the exception, so the process ends in \<^verbatim>\<open>std::terminate\<close>
  instead of exiting with code 1, and neither \<^verbatim>\<open>sqlite3_close\<close> nor
  \<^verbatim>\<open>spatialite_cleanup_ex\<close> is called: the trace ends with the failed prepare and the
  read of the error message.
\<close>

theorem metadata_check_failure_terminates:
  "main not_a_database [Returned (CHR ''i'') ''1'', Returned (CHR ''n'') ''notes.txt''] [] () =
     (Terminate ''Error checking if spatial_ref_sys table exists'',
      \<lparr>engine_state = (),
       trace =
         [(sqlite3_libversion, (0, [])), (spatialite_version, (0, [])),
          (sqlite3_open_v2 ''notes.txt'', (0, [])), (spatialite_alloc_connection, (0, [])),
          (spatialite_init_ex, (0, [])), (sqlite3_prepare_v2 check_sql, (26, [])),
          (sqlite3_errmsg, (0, ''file is not a database''))],
       cout =
         [''parsing arguments...'', ''Running example 1...'', ''SQLite version: '',
          ''Spatialite version: '', ''Opening database: notes.txt''],
       cerr =
         [''Error checking if spatial_ref_sys table exists: file is not a database'']\<rparr>)"
  by (simp add: main_def parse_args_def initial_args_def atoi_1 to_outcome_def run_defs
      not_a_database_def cong: prod.case_cong_weak let_weak_cong)

text \<open>
  Claim C2. Example 2 on the same file: the run leaves the runner by the exception of
  \<open>spatial_metadata_exists\<close>, with the cache allocated (\<^verbatim>\<open>spatialite_alloc_connection\<close>)
  and the handle open, and releases neither.
\<close>

theorem metadata_check_failure_leaks_connection:
  "run_example_2 not_a_database ''notes.txt'' (start ()) =
     (Throw ''Error checking if spatial_ref_sys table exists'',
      \<lparr>engine_state = (),
       trace =
         [(setenv ''SPATIALITE_SECURITY'' ''relaxed'', (0, [])),
          (sqlite3_open_v2 ''notes.txt'', (0, [])), (spatialite_alloc_connection, (0, [])),
          (spatialite_init_ex, (0, [])), (sqlite3_prepare_v2 check_sql, (26, [])),
          (sqlite3_errmsg, (0, ''file is not a database''))],
       cout = [''Opening database: notes.txt''],
       cerr =
         [''Error checking if spatial_ref_sys table exists: file is not a database'']\<rparr>)"
  by (simp add: run_defs not_a_database_def cong: prod.case_cong_weak let_weak_cong)

section \<open>The example selector\<close>

lemma run_example_1_opens:
  "\<exists>rest. calls (snd (run_example_1 eng name w)) =
      calls w @ sqlite3_libversion # spatialite_version # sqlite3_open_v2 name # rest"
proof -
  obtain e w' where run: "run_example_1 eng name w = (e, w')"
    by force
  note facts = show_versions_world [of eng w]
  from run have "\<exists>rest. calls w' =
      calls w @ sqlite3_libversion # spatialite_version # sqlite3_open_v2 name # rest"
  proof (cases rule: run_example_1_cases)
    case open_failed
    with facts show ?thesis
      by (auto simp: calls_def dest!: open_database_Some)
  next
    case (bootstrap_failed w1)
    then have "\<exists>rest. calls w' = calls w1 @ rest"
      by (auto simp: calls_def dest!: bootstrap_Some)
    with bootstrap_failed(1) facts show ?thesis
      by (auto simp: calls_def dest!: open_database_None)
  next
    case (create_failed w1 w2)
    then have "\<exists>rest. calls w' = calls w1 @ rest"
      by (auto simp: calls_def dest!: block_traces)
    with create_failed(1) facts show ?thesis
      by (auto simp: calls_def dest!: open_database_None)
  next
    case (geometry_failed w1 w2 w3)
    then have "\<exists>rest. calls w' = calls w1 @ rest"
      by (auto simp: calls_def dest!: block_traces)
    with geometry_failed(1) facts show ?thesis
      by (auto simp: calls_def dest!: open_database_None)
  next
    case (begin_failed w1 w2 w3 w4)
    then have "\<exists>rest. calls w' = calls w1 @ rest"
      by (auto simp: calls_def dest!: block_traces)
    with begin_failed(1) facts show ?thesis
      by (auto simp: calls_def dest!: open_database_None)
  next
    case (insert_failed w1 w2 w3 w4 w5)
    then have "\<exists>rest. calls w' = calls w1 @ rest"
      by (auto simp: calls_def dest!: block_traces)
    with insert_failed(1) facts show ?thesis
      by (auto simp: calls_def dest!: open_database_None)
  next
    case (commit_failed w1 w2 w3 w4 w5 w6)
    then have "\<exists>rest. calls w' = calls w1 @ rest"
      by (auto simp: calls_def dest!: block_traces)
    with commit_failed(1) facts show ?thesis
      by (auto simp: calls_def dest!: open_database_None)
  next
    case (finished w1 w2 w3 w4 w5 w6 w7)
    then have "\<exists>rest. calls w' = calls w1 @ rest"
      by (auto simp: calls_def dest!: block_traces)
    with finished(1) facts show ?thesis
      by (auto simp: calls_def dest!: open_database_None)
  qed
  with run show ?thesis
    by simp
qed

text \<open>
  Beyond the range of \<^verbatim>\<open>long\<close> the value is the saturated one: the selector is then 255
  or 0, and no example runs.
\<close>

lemma atoi_out_of_range:
  "atoi ''9223372036854775809'' = - 1" "atoi ''-9223372036854775810'' = 0"
  "(word_of_int (atoi ''9223372036854775809'') :: 8 word) = 255"
  "(word_of_int (atoi ''-9223372036854775810'') :: 8 word) = 0"
  by (simp_all add: atoi_def strtol_def LONG_MAX_def LONG_MIN_def isspace_def isdigit_def)

lemma atoi_257: "atoi ''257'' = 257"
  by (simp add: atoi_def strtol_def LONG_MAX_def isspace_def isdigit_def)

text \<open>
  Claim C3. \<^verbatim>\<open>example_id\<close> is a \<^verbatim>\<open>uint8_t\<close>, so the value 257 of \<^verbatim>\<open>atoi\<close> is stored
  as 1. For the command line \<^verbatim>\<open>--example-id 257\<close> the program runs example 1, whatever
  the engine answers: it reads the library versions and opens the in-memory database.
\<close>

theorem example_id_257_runs_example_1:
  "\<exists>rest. calls (snd (main eng [Returned (CHR ''i'') ''257''] [] s)) =
      sqlite3_libversion # spatialite_version # sqlite3_open_v2 '':memory:'' # rest"
proof -
  let ?w = "print_out ''Running example 1...''
      (print_out ''Using in-memory database'' (print_out ''parsing arguments...'' (start s)))"
  have "main eng [Returned (CHR ''i'') ''257''] [] s =
      (to_outcome (fst (run_example_1 eng '':memory:'' ?w)),
       snd (run_example_1 eng '':memory:'' ?w))"
    by (simp add: main_def parse_args_def initial_args_def atoi_257 split_def)
  moreover have "calls ?w = []"
    by (simp add: calls_def start_def)
  ultimately show ?thesis
    using run_example_1_opens [of eng "'':memory:''" ?w] by simp
qed

end
